theory Spec2Isabelle
  imports Complex_Main "HOL-Library.Char_ord" "HOL-Library.List_Lexorder"
begin

section \<open>Data frames\<close>

text \<open>
  The notebooks are straight-line scripts over Spark data frames (the two felony-modelling
  notebooks) and over a pandas data frame (the census notebook). A Spark row assigns a
  cell to every column name; a cell is null, a string, an integer, a fraction (Spark's
  double, kept exact here) or a vector of numbers. The columns read from the CSV files
  hold strings or nulls. The schema of a table is fixed when the script is analysed and
  the notebooks name only columns that exist, so a row is total: a column that a table
  does not have reads as null.
\<close>

datatype cell = Null | Str string | Num int | Dbl rat | Vec "int list"

type_synonym row = "string \<Rightarrow> cell"

type_synonym DataFrame = "row list"

text \<open>\<^verbatim>\<open>df.withColumn(name, expr)\<close>: every row gets (or has replaced) the column.\<close>

definition withColumn :: "string \<Rightarrow> (row \<Rightarrow> cell) \<Rightarrow> DataFrame \<Rightarrow> DataFrame" where
  "withColumn name e df = map (\<lambda>r. r(name := e r)) df"

text \<open>
  \<^verbatim>\<open>df.filter(cond)\<close>: a condition is three-valued (true, false, null) and a row is
  kept only where it is true.
\<close>

definition filter_df :: "(row \<Rightarrow> bool option) \<Rightarrow> DataFrame \<Rightarrow> DataFrame" where
  "filter_df cond df = filter (\<lambda>r. cond r = Some True) df"

text \<open>\<^verbatim>\<open>col.isin(values)\<close>: null on a null cell, and null when nothing matches but a
  null is among the values.\<close>

definition isin :: "cell \<Rightarrow> cell list \<Rightarrow> bool option" where
  "isin c vs =
     (if c = Null then None
      else if c \<in> set vs then Some True
      else if Null \<in> set vs then None
      else Some False)"

text \<open>\<^verbatim>\<open>col == literal\<close>: null when either side is null.\<close>

definition eq_col :: "cell \<Rightarrow> cell \<Rightarrow> bool option" where
  "eq_col a b = (if a = Null \<or> b = Null then None else Some (a = b))"

text \<open>\<^verbatim>\<open>F.when(cond, v).otherwise(d)\<close>: \<^verbatim>\<open>v\<close> where the condition is true, \<^verbatim>\<open>d\<close> where
  it is false or null.\<close>

definition when_otherwise :: "bool option \<Rightarrow> cell \<Rightarrow> cell \<Rightarrow> cell" where
  "when_otherwise cond v d = (if cond = Some True then v else d)"

section \<open>Race normalisation\<close>

text \<open>
  \<^verbatim>\<open>F.regexp_replace(col, pattern, replacement)\<close> replaces every match of the pattern,
  scanning from the left, matches not overlapping. The six patterns of the notebooks
  use no regular-expression operator: their only special characters are parentheses,
  each escaped by a backslash, so a pattern matches exactly the text it spells.
  \<open>quoted\<close> reads a pattern as that text, \<open>plain_pattern\<close> says that it has no
  unescaped operator, and \<open>replace_all\<close> is the replacement of a text by a text.
\<close>

definition bsl :: char where
  "bsl = CHR 0x5C"

fun quoted :: "string \<Rightarrow> string" where
  "quoted [] = []"
| "quoted [c] = [c]"
| "quoted (c # d # cs) = (if c = bsl then d # quoted cs else c # quoted (d # cs))"

definition metachars :: "char list" where
  "metachars = ''.[]{}()*+?^$|''"

fun plain_pattern :: "string \<Rightarrow> bool" where
  "plain_pattern [] = True"
| "plain_pattern [c] = (c \<noteq> bsl \<and> c \<notin> set metachars)"
| "plain_pattern (c # d # cs) =
     (if c = bsl then d \<in> set metachars \<and> plain_pattern cs
      else c \<notin> set metachars \<and> plain_pattern (d # cs))"

function replace_all :: "string \<Rightarrow> string \<Rightarrow> string \<Rightarrow> string" where
  "replace_all pat rep [] = (if pat = [] then rep else [])"
| "replace_all pat rep (c # cs) =
     (if pat = [] then rep @ c # replace_all pat rep cs
      else if take (length pat) (c # cs) = pat
           then rep @ replace_all pat rep (drop (length pat) (c # cs))
           else c # replace_all pat rep cs)"
  by pat_completeness auto
termination
  by (relation "measure (\<lambda>(pat, rep, s). length s)") auto

text \<open>A null cell stays null.\<close>

definition regexp_replace :: "cell \<Rightarrow> string \<Rightarrow> string \<Rightarrow> cell" where
  "regexp_replace c pattern replacement =
     (case c of Str s \<Rightarrow> Str (replace_all (quoted pattern) replacement s) | _ \<Rightarrow> Null)"

definition pat_non_hispanic :: string where
  "pat_non_hispanic = bsl # ''(Non-Hispanic'' @ bsl # '')''"

definition pat_includes_sp :: string where
  "pat_includes_sp = '' '' @ bsl # ''(Includes Not Applicable, Unknown'' @ bsl # '')''"

definition pat_includes :: string where
  "pat_includes = bsl # ''(Includes Not Applicable, Unknown'' @ bsl # '')''"

text \<open>The cell \<^verbatim>\<open>#cleaning/standardizing race names\<close>, the same in both notebooks
  (\<^verbatim>\<open>circuit\<close> there, \<^verbatim>\<open>district\<close> here).\<close>

definition clean_race :: "DataFrame \<Rightarrow> DataFrame" where
  "clean_race circuit =
     (let circuit = withColumn ''RaceClean''
            (\<lambda>r. regexp_replace (r ''Race'') pat_non_hispanic '''') circuit;
          circuit = withColumn ''RaceClean''
            (\<lambda>r. regexp_replace (r ''RaceClean'') '' Caucasian'' '''') circuit;
          circuit = withColumn ''RaceClean''
            (\<lambda>r. regexp_replace (r ''RaceClean'') ''Asian Or'' ''Asian or'') circuit;
          circuit = withColumn ''RaceClean''
            (\<lambda>r. regexp_replace (r ''RaceClean'') pat_includes_sp '''') circuit;
          circuit = withColumn ''RaceClean''
            (\<lambda>r. regexp_replace (r ''RaceClean'') pat_includes '''') circuit;
          circuit = withColumn ''RaceClean''
            (\<lambda>r. regexp_replace (r ''RaceClean'') ''Other'' ''Unknown'') circuit
      in circuit)"

text \<open>What the six steps do to one \<^verbatim>\<open>Race\<close> cell.\<close>

definition RaceClean :: "cell \<Rightarrow> cell" where
  "RaceClean race =
     regexp_replace (regexp_replace (regexp_replace (regexp_replace (regexp_replace
       (regexp_replace race pat_non_hispanic '''')
         '' Caucasian'' '''') ''Asian Or'' ''Asian or'') pat_includes_sp '''')
           pat_includes '''') ''Other'' ''Unknown''"

section \<open>Row filter and label\<close>

text \<open>
  \<^verbatim>\<open>data = circuit.filter(circuit.ChargeType.isin(['Misdemeanor', 'Felony']))\<close> and
  \<^verbatim>\<open>data = data.withColumn('Felony', F.when(data.ChargeType == 'Felony', 1).otherwise(0))\<close>.
  The district notebook does the same on its column \<^verbatim>\<open>CaseType\<close>, so the column name
  is an argument.
\<close>

definition keep_charge_types :: "string \<Rightarrow> DataFrame \<Rightarrow> DataFrame" where
  "keep_charge_types ChargeType circuit =
     filter_df (\<lambda>r. isin (r ChargeType) [Str ''Misdemeanor'', Str ''Felony'']) circuit"

definition add_Felony :: "string \<Rightarrow> DataFrame \<Rightarrow> DataFrame" where
  "add_Felony ChargeType data =
     withColumn ''Felony''
       (\<lambda>r. when_otherwise (eq_col (r ChargeType) (Str ''Felony'')) (Num 1) (Num 0)) data"

definition data_of :: "string \<Rightarrow> DataFrame \<Rightarrow> DataFrame" where
  "data_of ChargeType circuit = add_Felony ChargeType (keep_charge_types ChargeType circuit)"

section \<open>Cross-tabulation\<close>

text \<open>
  \<^verbatim>\<open>fel = data.groupBy('RaceClean').agg(F.count(data.RaceClean).alias('count'),
  F.sum(data.Felony).alias('n_felonies'))\<close> and
  \<^verbatim>\<open>fel.withColumn('percent', fel['n_felonies']/fel['count'])\<close>.
  Grouping makes one group for each distinct cell of the key column, null being a key
  like any other. \<^verbatim>\<open>F.count(col)\<close> counts the rows of the group whose cell in that
  column is not null; \<^verbatim>\<open>F.sum(col)\<close> adds the numbers of the column and is null when
  there is none. The division of two integer columns is Spark's: a fraction, and null
  when the divisor is zero or an operand is null. The order of the groups is not fixed
  by Spark; here it is the order in which the keys appear last.
\<close>

definition groupBy :: "string \<Rightarrow> DataFrame \<Rightarrow> (cell \<times> DataFrame) list" where
  "groupBy key df =
     map (\<lambda>k. (k, filter (\<lambda>r. r key = k) df)) (remdups (map (\<lambda>r. r key) df))"

definition count_agg :: "string \<Rightarrow> DataFrame \<Rightarrow> cell" where
  "count_agg c g = Num (int (length (filter (\<lambda>r. r c \<noteq> Null) g)))"

fun numbers :: "cell list \<Rightarrow> int list" where
  "numbers [] = []"
| "numbers (Num n # cs) = n # numbers cs"
| "numbers (_ # cs) = numbers cs"

definition sum_agg :: "string \<Rightarrow> DataFrame \<Rightarrow> cell" where
  "sum_agg c g =
     (let ns = numbers (map (\<lambda>r. r c) g) in if ns = [] then Null else Num (sum_list ns))"

definition divide :: "cell \<Rightarrow> cell \<Rightarrow> cell" where
  "divide a b =
     (case (a, b) of
        (Num x, Num y) \<Rightarrow> if y = 0 then Null else Dbl (of_int x / of_int y)
      | _ \<Rightarrow> Null)"

definition fel :: "DataFrame \<Rightarrow> DataFrame" where
  "fel data =
     map (\<lambda>(k, g). (\<lambda>_. Null)
            (''RaceClean'' := k,
             ''count'' := count_agg ''RaceClean'' g,
             ''n_felonies'' := sum_agg ''Felony'' g))
       (groupBy ''RaceClean'' data)"

definition percent :: "DataFrame \<Rightarrow> DataFrame" where
  "percent data =
     withColumn ''percent'' (\<lambda>r. divide (r ''n_felonies'') (r ''count'')) (fel data)"

section \<open>Census cleaning\<close>

text \<open>
  The census notebook works on a pandas frame read from the file
  \<^verbatim>\<open>cc-est2019-alldata-51.csv\<close>: eighty columns, of which the seven below are named and
  the seventy-three population counts (\<^verbatim>\<open>TOT_POP\<close> to \<^verbatim>\<open>HNAC_FEMALE\<close>) are kept as a
  list. A frame is the list of its rows, each with its index label, which selection by
  a boolean mask keeps.
\<close>

record census_row =
  SUMLEV :: int
  STATE :: int
  COUNTY :: int
  STNAME :: string
  CTYNAME :: string
  YEAR :: int
  AGEGRP :: int
  estimates :: "int list"

record clean_row =
  STATE' :: int
  COUNTY' :: int
  STNAME' :: string
  CTYNAME' :: string
  YEAR' :: int
  estimates' :: "int list"

type_synonym 'a frame = "(nat \<times> 'a) list"

text \<open>\<^verbatim>\<open>pd.read_csv\<close> labels the rows 0, 1, 2, ...\<close>

definition read_csv :: "'a list \<Rightarrow> 'a frame" where
  "read_csv rows = zip [0..<length rows] rows"

text \<open>
  \<^verbatim>\<open>np.select(condlist, choicelist)\<close>, at one position of the arrays: the choice of
  the first condition that holds there, and the default (0 when not given, as here)
  when none holds. Both lists of the notebook have ten entries.
\<close>

fun np_select :: "bool list \<Rightarrow> int list \<Rightarrow> int \<Rightarrow> int" where
  "np_select (c # condlist) (v # choicelist) dflt =
     (if c then v else np_select condlist choicelist dflt)"
| "np_select _ _ dflt = dflt"

definition conditions :: "int \<Rightarrow> bool list" where
  "conditions year =
     [year = 3, year = 4, year = 5, year = 6, year = 7, year = 8, year = 9, year = 10,
      year = 11, year = 12]"

definition choices :: "int list" where
  "choices = [2010, 2011, 2012, 2013, 2014, 2015, 2016, 2017, 2018, 2019]"

text \<open>\<^verbatim>\<open>census_clean.drop(['SUMLEV', 'AGEGRP'], axis = 1)\<close>\<close>

definition drop_SUMLEV_AGEGRP :: "census_row \<Rightarrow> clean_row" where
  "drop_SUMLEV_AGEGRP r =
     \<lparr>STATE' = STATE r, COUNTY' = COUNTY r, STNAME' = STNAME r, CTYNAME' = CTYNAME r,
      YEAR' = YEAR r, estimates' = estimates r\<rparr>"

definition census_clean :: "census_row frame \<Rightarrow> clean_row frame" where
  "census_clean census =
     (let census_clean = filter (\<lambda>(i, r). AGEGRP r = 0 \<and> YEAR r \<ge> 3) census;
          census_clean =
            map (\<lambda>(i, r). (i, r\<lparr>YEAR := np_select (conditions (YEAR r)) choices 0\<rparr>))
              census_clean
      in map (\<lambda>(i, r). (i, drop_SUMLEV_AGEGRP r)) census_clean)"

section \<open>Feature pipeline\<close>

text \<open>
  The stages are Spark ML's. Their semantics are the library's, written out here as far
  as the notebooks use them:
  \<^item> \<^verbatim>\<open>StringIndexer(inputCol, outputCol, handleInvalid)\<close>, fitted, holds the labels:
    the distinct non-null strings of the input column, the most frequent first (the
    default order \<^verbatim>\<open>frequencyDesc\<close>), strings of equal frequency in alphabetical
    order. It writes the position of a row's string among the labels. A row whose cell
    is null or is not a label is invalid: with \<^verbatim>\<open>handleInvalid = "skip"\<close> the row is
    filtered out, with \<^verbatim>\<open>"error"\<close> (the default) the job fails. The third
    policy, \<^verbatim>\<open>"keep"\<close>, is not used by the notebooks and is left out.
  \<^item> \<^verbatim>\<open>OneHotEncoder(inputCol, outputCol)\<close> takes the categories from the nominal
    metadata that the indexer attached to its input column: the labels. It drops the
    last category (\<^verbatim>\<open>dropLast\<close>, the default), and for that it requires at least two
    labels: with fewer the job fails (\<^verbatim>\<open>should have at least two distinct values\<close>).
    Without metadata the number of categories is taken from the data, one more than the
    largest index. It writes the indicator vector without the last category. An index
    that is missing or out of range fails the job.
  \<^item> \<^verbatim>\<open>VectorAssembler(inputCols, outputCol, handleInvalid)\<close> concatenates its inputs;
    a row with a null input is invalid.
  \<^item> \<^verbatim>\<open>LogisticRegression(labelCol)\<close> reads the columns \<^verbatim>\<open>features\<close> and the label.
    The optimiser, the metrics of a model over a data set and the prediction are the
    library's numerical code; they are parameters here (\<open>mllib\<close>), and the optimiser
    may fail. The fitted model carries its \<^verbatim>\<open>summary\<close>: the metrics of the model over
    the data given to \<^verbatim>\<open>fit\<close>.
  \<^item> The stages name what they write in the metadata of the schema: an indexed column
    is nominal, with the labels as its values; an encoded column is a group of
    attributes named by the labels but the last; the assembled column is the group of
    the attributes of its inputs in their order, each named by its column, an
    underscore and its own name.
    Of the columns it writes into a row, \<^verbatim>\<open>prediction\<close> stands for all three
    (\<^verbatim>\<open>rawPrediction\<close>, \<^verbatim>\<open>probability\<close>, \<^verbatim>\<open>prediction\<close>).
\<close>

datatype handleInvalid = error | skip

datatype stage =
    StringIndexer string string handleInvalid
  | OneHotEncoder string string
  | VectorAssembler "string list" string handleInvalid
  | LogisticRegression string

datatype ('m, 's) transformer =
    StringIndexerModel string string handleInvalid "string list"
  | OneHotEncoderModel string string nat
  | VectorAssemblerModel "string list" string handleInvalid
  | LogisticRegressionModel 'm 's

datatype SparkException = SparkException

record ('m, 's) mllib =
  learn :: "(cell \<times> cell) list \<Rightarrow> SparkException + 'm"
  evaluate :: "'m \<Rightarrow> (cell \<times> cell) list \<Rightarrow> 's"
  predict :: "'m \<Rightarrow> cell \<Rightarrow> cell"

datatype ml_attr = Nominal "string list" | AttributeGroup "string list"

type_synonym metadata = "string \<Rightarrow> ml_attr option"

text \<open>What a stage does to one row: the job fails, the row is filtered out, or the row
  goes on with a column more.\<close>

datatype outcome = Raised | Skipped | Kept row

definition invalid :: "handleInvalid \<Rightarrow> outcome" where
  "invalid h = (case h of error \<Rightarrow> Raised | skip \<Rightarrow> Skipped)"

fun index_of :: "'a list \<Rightarrow> 'a \<Rightarrow> nat option" where
  "index_of [] x = None"
| "index_of (y # ys) x = (if x = y then Some 0 else map_option Suc (index_of ys x))"

definition one_hot :: "nat \<Rightarrow> nat \<Rightarrow> int list" where
  "one_hot n i = map (\<lambda>j. if j = i then 1 else 0) [0..<n]"

definition as_vector :: "cell \<Rightarrow> int list option" where
  "as_vector c = (case c of Vec v \<Rightarrow> Some v | Num n \<Rightarrow> Some [n] | _ \<Rightarrow> None)"

fun transform_row :: "('m, 's) mllib \<Rightarrow> ('m, 's) transformer \<Rightarrow> row \<Rightarrow> outcome" where
  "transform_row lib (StringIndexerModel inputCol outputCol h labels) r =
     (case r inputCol of
        Str s \<Rightarrow>
          (case index_of labels s of
             Some i \<Rightarrow> Kept (r(outputCol := Num (int i)))
           | None \<Rightarrow> invalid h)
      | _ \<Rightarrow> invalid h)"
| "transform_row lib (OneHotEncoderModel inputCol outputCol n) r =
     (case r inputCol of
        Num i \<Rightarrow>
          if 0 \<le> i \<and> i < int n then Kept (r(outputCol := Vec (one_hot (n - 1) (nat i))))
          else Raised
      | _ \<Rightarrow> Raised)"
| "transform_row lib (VectorAssemblerModel inputCols outputCol h) r =
     (if Null \<in> set (map r inputCols) then invalid h
      else case those (map (\<lambda>c. as_vector (r c)) inputCols) of
             Some vs \<Rightarrow> Kept (r(outputCol := Vec (concat vs)))
           | None \<Rightarrow> Raised)"
| "transform_row lib (LogisticRegressionModel m s) r =
     Kept (r(''prediction'' := predict lib m (r ''features'')))"

fun collect :: "outcome list \<Rightarrow> SparkException + DataFrame" where
  "collect [] = Inr []"
| "collect (Raised # os) = Inl SparkException"
| "collect (Skipped # os) = collect os"
| "collect (Kept r # os) = (case collect os of Inl e \<Rightarrow> Inl e | Inr rs \<Rightarrow> Inr (r # rs))"

definition transform ::
  "('m, 's) mllib \<Rightarrow> ('m, 's) transformer \<Rightarrow> DataFrame \<Rightarrow> SparkException + DataFrame" where
  "transform lib t df = collect (map (transform_row lib t) df)"

text \<open>Fitting. The metadata of the schema is kept beside the data.\<close>

definition string_values :: "string \<Rightarrow> DataFrame \<Rightarrow> string list" where
  "string_values c df = concat (map (\<lambda>r. case r c of Str s \<Rightarrow> [s] | _ \<Rightarrow> []) df)"

definition frequencyDesc :: "string list \<Rightarrow> string list" where
  "frequencyDesc vs = sort_key (\<lambda>v. - int (count_list vs v)) (sort (remdups vs))"

definition largest_index :: "string \<Rightarrow> DataFrame \<Rightarrow> nat" where
  "largest_index c df = fold max (concat (map (\<lambda>r. case r c of Num i \<Rightarrow> [nat i] | _ \<Rightarrow> []) df)) 0"

definition examples :: "string \<Rightarrow> DataFrame \<Rightarrow> (cell \<times> cell) list" where
  "examples labelCol df = map (\<lambda>r. (r ''features'', r labelCol)) df"

definition digit :: "nat \<Rightarrow> char" where
  "digit d = char_of (48 + d)"

function decimal :: "nat \<Rightarrow> string" where
  "decimal n = (if n < 10 then [digit n] else decimal (n div 10) @ [digit (n mod 10)])"
  by pat_completeness auto
termination
  by (relation "measure (\<lambda>n. n)") auto

fun fit ::
  "('m, 's) mllib \<Rightarrow> metadata \<Rightarrow> stage \<Rightarrow> DataFrame \<Rightarrow>
     SparkException + ('m, 's) transformer" where
  "fit lib attrs (StringIndexer inputCol outputCol h) df =
     Inr (StringIndexerModel inputCol outputCol h (frequencyDesc (string_values inputCol df)))"
| "fit lib attrs (OneHotEncoder inputCol outputCol) df =
     (case attrs inputCol of
        Some (Nominal labels) \<Rightarrow>
          if length labels > 1 then Inr (OneHotEncoderModel inputCol outputCol (length labels))
          else Inl SparkException
      | Some (AttributeGroup names) \<Rightarrow> Inl SparkException
      | None \<Rightarrow> Inr (OneHotEncoderModel inputCol outputCol (Suc (largest_index inputCol df))))"
| "fit lib attrs (VectorAssembler inputCols outputCol h) df =
     Inr (VectorAssemblerModel inputCols outputCol h)"
| "fit lib attrs (LogisticRegression labelCol) df =
     (case learn lib (examples labelCol df) of
        Inl e \<Rightarrow> Inl e
      | Inr m \<Rightarrow> Inr (LogisticRegressionModel m (evaluate lib m (examples labelCol df))))"

fun attrs_after :: "('m, 's) transformer \<Rightarrow> metadata \<Rightarrow> metadata" where
  "attrs_after (StringIndexerModel inputCol outputCol h labels) attrs =
     attrs(outputCol := Some (Nominal labels))"
| "attrs_after (OneHotEncoderModel inputCol outputCol n) attrs =
     attrs(outputCol := Some (AttributeGroup
       (case attrs inputCol of
          Some (Nominal labels) \<Rightarrow> butlast labels
        | _ \<Rightarrow> map decimal [0..<n - 1])))"
| "attrs_after (VectorAssemblerModel inputCols outputCol h) attrs =
     attrs(outputCol := Some (AttributeGroup (concat (map
       (\<lambda>c. case attrs c of
              Some (AttributeGroup names) \<Rightarrow> map (\<lambda>a. c @ ''_'' @ a) names
            | _ \<Rightarrow> [c])
       inputCols))))"
| "attrs_after (LogisticRegressionModel m s) attrs = attrs(''prediction'' := None)"

text \<open>
  \<^verbatim>\<open>Pipeline(stages).fit(df)\<close> fits the stages in their order, each on the data as the
  fitted stages before it have transformed it; the last stage only is not applied to
  the data. A stage that fails, in fitting or in transforming, fails the whole.
  \<^verbatim>\<open>model.transform(df)\<close> applies the fitted stages in their order.
\<close>

fun Pipeline_fit ::
  "('m, 's) mllib \<Rightarrow> stage list \<Rightarrow> metadata \<Rightarrow> DataFrame \<Rightarrow>
     SparkException + ('m, 's) transformer list" where
  "Pipeline_fit lib [] attrs df = Inr []"
| "Pipeline_fit lib [s] attrs df =
     (case fit lib attrs s df of Inl e \<Rightarrow> Inl e | Inr t \<Rightarrow> Inr [t])"
| "Pipeline_fit lib (s # ss) attrs df =
     (case fit lib attrs s df of
        Inl e \<Rightarrow> Inl e
      | Inr t \<Rightarrow>
          (case transform lib t df of
             Inl e \<Rightarrow> Inl e
           | Inr df' \<Rightarrow>
               (case Pipeline_fit lib ss (attrs_after t attrs) df' of
                  Inl e \<Rightarrow> Inl e
                | Inr ts \<Rightarrow> Inr (t # ts))))"

fun PipelineModel_transform ::
  "('m, 's) mllib \<Rightarrow> ('m, 's) transformer list \<Rightarrow> DataFrame \<Rightarrow> SparkException + DataFrame"
  where
  "PipelineModel_transform lib [] df = Inr df"
| "PipelineModel_transform lib (t # ts) df =
     (case transform lib t df of
        Inl e \<Rightarrow> Inl e
      | Inr df' \<Rightarrow> PipelineModel_transform lib ts df')"

text \<open>
  \<^verbatim>\<open>pred.select("features").schema[0].metadata.get('ml_attr').get('attrs').get('binary')\<close>,
  where \<^verbatim>\<open>pred = model.transform(data)\<close>: the attributes of the assembled column as the
  fitted stages name them, each with its position in the vector, which is also the
  position of its coefficient.
\<close>

definition feature_names :: "string list \<Rightarrow> (nat \<times> string) list" where
  "feature_names names = zip [0..<length names] names"

definition binary_metadata :: "('m, 's) transformer list \<Rightarrow> (nat \<times> string) list option" where
  "binary_metadata stages =
     (case fold attrs_after stages (\<lambda>_. None) ''features'' of
        Some (AttributeGroup names) \<Rightarrow> Some (feature_names names)
      | _ \<Rightarrow> None)"

section \<open>Rows through a fitted pipeline\<close>

text \<open>
  The stages work row by row, so what a fitted pipeline does to a table is what it does
  to each row: \<open>pipeline_row\<close> passes one row through the stages, \<open>kept\<close> collects
  the rows that come out. The vocabulary of a fitted pipeline is the list of its
  indexers' input columns, each with its labels; a row is in the vocabulary when each
  of these columns holds a string that is among the labels.
\<close>

fun kept :: "outcome list \<Rightarrow> DataFrame" where
  "kept [] = []"
| "kept (Kept r # os) = r # kept os"
| "kept (_ # os) = kept os"

fun pipeline_row :: "('m, 's) mllib \<Rightarrow> ('m, 's) transformer list \<Rightarrow> row \<Rightarrow> outcome" where
  "pipeline_row lib [] r = Kept r"
| "pipeline_row lib (t # ts) r =
     (case transform_row lib t r of Kept r' \<Rightarrow> pipeline_row lib ts r' | out \<Rightarrow> out)"

fun vocabulary :: "('m, 's) transformer list \<Rightarrow> (string \<times> string list) list" where
  "vocabulary [] = []"
| "vocabulary (StringIndexerModel inputCol outputCol h labels # ts) =
     (inputCol, labels) # vocabulary ts"
| "vocabulary (_ # ts) = vocabulary ts"

definition in_vocabulary :: "('m, 's) transformer list \<Rightarrow> row \<Rightarrow> bool" where
  "in_vocabulary ts r =
     list_all (\<lambda>(c, labels). case r c of Str s \<Rightarrow> s \<in> set labels | _ \<Rightarrow> False) (vocabulary ts)"

section \<open>The notebooks' pipelines\<close>

text \<open>
  The circuit-court notebook indexes and encodes \<^verbatim>\<open>Sex\<close>, \<^verbatim>\<open>RaceClean\<close>,
  \<^verbatim>\<open>CodeSection\<close> and \<^verbatim>\<open>fips\<close>; its marijuana model only the first two. The
  district-court notebook has the column \<^verbatim>\<open>Gender\<close> for \<^verbatim>\<open>Sex\<close> and no \<^verbatim>\<open>fips\<close>.
  The random-forest pipelines of both notebooks have the same encoding stages.
\<close>

definition gendInd :: stage where
  "gendInd = StringIndexer ''Sex'' ''GendInd'' skip"

definition gend :: stage where
  "gend = OneHotEncoder ''GendInd'' ''GenderOH''"

definition raceInd :: stage where
  "raceInd = StringIndexer ''RaceClean'' ''RaceInd'' skip"

definition race :: stage where
  "race = OneHotEncoder ''RaceInd'' ''RaceOH''"

definition chargeInd :: stage where
  "chargeInd = StringIndexer ''CodeSection'' ''ChargeInd'' skip"

definition charge :: stage where
  "charge = OneHotEncoder ''ChargeInd'' ''ChargeCodeOH''"

definition fipsInd :: stage where
  "fipsInd = StringIndexer ''fips'' ''FipsInd'' skip"

definition fips :: stage where
  "fips = OneHotEncoder ''FipsInd'' ''FipsOH''"

definition va :: stage where
  "va = VectorAssembler [''RaceOH'', ''ChargeCodeOH'', ''FipsOH'', ''GenderOH''] ''features'' skip"

definition logm :: stage where
  "logm = LogisticRegression ''Felony''"

definition pipeline :: "stage list" where
  "pipeline = [gendInd, gend, raceInd, race, chargeInd, charge, fipsInd, fips, va, logm]"

definition va_mj :: stage where
  "va_mj = VectorAssembler [''RaceOH'', ''GenderOH''] ''features'' skip"

definition pipeline_mj :: "stage list" where
  "pipeline_mj = [gendInd, gend, raceInd, race, va_mj, logm]"

definition gendInd_district :: stage where
  "gendInd_district = StringIndexer ''Gender'' ''GendInd'' skip"

definition va_district :: stage where
  "va_district = VectorAssembler [''RaceOH'', ''ChargeCodeOH'', ''GenderOH''] ''features'' skip"

definition pipeline_district :: "stage list" where
  "pipeline_district =
     [gendInd_district, gend, raceInd, race, chargeInd, charge, va_district, logm]"

definition pipeline_mj_district :: "stage list" where
  "pipeline_mj_district = [gendInd_district, gend, raceInd, race, va_mj, logm]"

definition notebook_pipelines :: "stage list list" where
  "notebook_pipelines = [pipeline, pipeline_mj, pipeline_district, pipeline_mj_district]"

text \<open>
  The metrics the circuit-court notebook prints. \<^verbatim>\<open>data.randomSplit([0.9, 0.1], 34)\<close> is
  the library's; it is a parameter, any function that yields two tables. The full model:
  \<^verbatim>\<open>train, test = data.randomSplit(weights, seed)\<close>, \<^verbatim>\<open>model = pipeline.fit(data)\<close>,
  \<^verbatim>\<open>trainingSummary = model.stages[-1].summary\<close>. The marijuana model:
  \<^verbatim>\<open>train, test = data_mj.randomSplit(weights, seed)\<close>,
  \<^verbatim>\<open>model_mj = pipeline_mj.fit(train)\<close>, \<^verbatim>\<open>pred_mj = model_mj.transform(test)\<close>,
  \<^verbatim>\<open>trainingSummary = model_mj.stages[-1].summary\<close>.
\<close>

fun summary :: "('m, 's) transformer \<Rightarrow> 's option" where
  "summary (LogisticRegressionModel m s) = Some s"
| "summary _ = None"

definition stages_last_summary ::
  "SparkException + ('m, 's) transformer list \<Rightarrow> SparkException + 's option" where
  "stages_last_summary model =
     (case model of
        Inl e \<Rightarrow> Inl e
      | Inr stages \<Rightarrow> Inr (if stages = [] then None else summary (last stages)))"

definition trainingSummary ::
  "('m, 's) mllib \<Rightarrow> (DataFrame \<Rightarrow> DataFrame \<times> DataFrame) \<Rightarrow> DataFrame \<Rightarrow>
     SparkException + 's option" where
  "trainingSummary lib randomSplit data =
     (let (train, test) = randomSplit data;
          model = Pipeline_fit lib pipeline (\<lambda>_. None) data
      in stages_last_summary model)"

definition trainingSummary_mj ::
  "('m, 's) mllib \<Rightarrow> (DataFrame \<Rightarrow> DataFrame \<times> DataFrame) \<Rightarrow> DataFrame \<Rightarrow>
     SparkException + 's option" where
  "trainingSummary_mj lib randomSplit data_mj =
     (let (train, test) = randomSplit data_mj;
          model_mj = Pipeline_fit lib pipeline_mj (\<lambda>_. None) train
      in case model_mj of
           Inl e \<Rightarrow> Inl e
         | Inr stages \<Rightarrow>
             (case PipelineModel_transform lib stages test of
                Inl e \<Rightarrow> Inl e
              | Inr pred_mj \<Rightarrow> stages_last_summary model_mj))"

text \<open>
  What the specification says of the metrics when a split was created: they are the
  metrics of the fitted model over the held-out table, encoded by the fitted stages.
\<close>

definition held_out_metrics ::
  "('m, 's) mllib \<Rightarrow> ('m, 's) transformer list \<Rightarrow> string \<Rightarrow> DataFrame \<Rightarrow>
     SparkException + 's option" where
  "held_out_metrics lib stages labelCol test =
     (case PipelineModel_transform lib (butlast stages) test of
        Inl e \<Rightarrow> Inl e
      | Inr enc \<Rightarrow>
          (case last stages of
             LogisticRegressionModel m s \<Rightarrow> Inr (Some (evaluate lib m (examples labelCol enc)))
           | _ \<Rightarrow> Inr None))"

definition spec_summary ::
  "('m, 's) mllib \<Rightarrow> (DataFrame \<Rightarrow> DataFrame \<times> DataFrame) \<Rightarrow> DataFrame \<Rightarrow>
     SparkException + 's option" where
  "spec_summary lib randomSplit data =
     (let (train, test) = randomSplit data
      in case Pipeline_fit lib pipeline (\<lambda>_. None) data of
           Inl e \<Rightarrow> Inl e
         | Inr stages \<Rightarrow> held_out_metrics lib stages ''Felony'' test)"

section \<open>Well-formed pipelines\<close>

text \<open>
  A static check of a pipeline, and the invariant behind it. The check follows the
  shape of each column (anything, an index written by an indexer, a vector): an indexer
  must skip invalid rows, an encoder must read an index, an assembler must read
  indices or vectors, and no stage may write a column that a later indexer reads. The
  invariant \<open>conforms\<close> says that a row has, in each column, a cell of the column's
  kind; the kind of an index carries the labels, the kind of a vector the names of its
  attributes, as the metadata has them.
\<close>

datatype kind = Any | Index "string list" | Vector "string list"

definition attrs_of :: "(string \<Rightarrow> kind) \<Rightarrow> metadata" where
  "attrs_of E c =
     (case E c of
        Any \<Rightarrow> None
      | Index labels \<Rightarrow> Some (Nominal labels)
      | Vector names \<Rightarrow> Some (AttributeGroup names))"

definition conforms :: "(string \<Rightarrow> kind) \<Rightarrow> row \<Rightarrow> bool" where
  "conforms E r \<longleftrightarrow>
     (\<forall>c. case E c of
            Any \<Rightarrow> True
          | Index labels \<Rightarrow> (\<exists>k<length labels. r c = Num (int k))
          | Vector names \<Rightarrow> (\<exists>v. r c = Vec v))"

fun env_after :: "('m, 's) transformer \<Rightarrow> (string \<Rightarrow> kind) \<Rightarrow> (string \<Rightarrow> kind)" where
  "env_after (StringIndexerModel inputCol outputCol h labels) E = E(outputCol := Index labels)"
| "env_after (OneHotEncoderModel inputCol outputCol n) E =
     E(outputCol := Vector
       (case E inputCol of
          Index labels \<Rightarrow> butlast labels
        | _ \<Rightarrow> map decimal [0..<n - 1]))"
| "env_after (VectorAssemblerModel inputCols outputCol h) E =
     E(outputCol := Vector (concat (map
       (\<lambda>c. case E c of
              Vector names \<Rightarrow> map (\<lambda>a. c @ ''_'' @ a) names
            | _ \<Rightarrow> [c])
       inputCols)))"
| "env_after (LogisticRegressionModel m s) E = E(''prediction'' := Any)"

fun ok_t :: "(string \<Rightarrow> kind) \<Rightarrow> ('m, 's) transformer \<Rightarrow> bool" where
  "ok_t E (StringIndexerModel inputCol outputCol h labels) = (h = skip)"
| "ok_t E (OneHotEncoderModel inputCol outputCol n) =
     (case E inputCol of Index labels \<Rightarrow> n = length labels | _ \<Rightarrow> False)"
| "ok_t E (VectorAssemblerModel inputCols outputCol h) = list_all (\<lambda>c. E c \<noteq> Any) inputCols"
| "ok_t E (LogisticRegressionModel m s) = True"

fun oks :: "(string \<Rightarrow> kind) \<Rightarrow> ('m, 's) transformer list \<Rightarrow> bool" where
  "oks E [] = True"
| "oks E (t # ts) = (ok_t E t \<and> oks (env_after t E) ts)"

datatype shape = AnyS | IndexS | VectorS

definition shape_of :: "kind \<Rightarrow> shape" where
  "shape_of k = (case k of Any \<Rightarrow> AnyS | Index labels \<Rightarrow> IndexS | Vector names \<Rightarrow> VectorS)"

fun shape_after :: "stage \<Rightarrow> (string \<Rightarrow> shape) \<Rightarrow> (string \<Rightarrow> shape)" where
  "shape_after (StringIndexer inputCol outputCol h) S = S(outputCol := IndexS)"
| "shape_after (OneHotEncoder inputCol outputCol) S = S(outputCol := VectorS)"
| "shape_after (VectorAssembler inputCols outputCol h) S = S(outputCol := VectorS)"
| "shape_after (LogisticRegression labelCol) S = S(''prediction'' := AnyS)"

fun ok_stage :: "(string \<Rightarrow> shape) \<Rightarrow> stage \<Rightarrow> bool" where
  "ok_stage S (StringIndexer inputCol outputCol h) = (h = skip)"
| "ok_stage S (OneHotEncoder inputCol outputCol) = (S inputCol = IndexS)"
| "ok_stage S (VectorAssembler inputCols outputCol h) = list_all (\<lambda>c. S c \<noteq> AnyS) inputCols"
| "ok_stage S (LogisticRegression labelCol) = True"

fun indexed_columns :: "stage list \<Rightarrow> string list" where
  "indexed_columns [] = []"
| "indexed_columns (StringIndexer inputCol outputCol h # ss) = inputCol # indexed_columns ss"
| "indexed_columns (_ # ss) = indexed_columns ss"

fun writes_stage :: "stage \<Rightarrow> string" where
  "writes_stage (StringIndexer inputCol outputCol h) = outputCol"
| "writes_stage (OneHotEncoder inputCol outputCol) = outputCol"
| "writes_stage (VectorAssembler inputCols outputCol h) = outputCol"
| "writes_stage (LogisticRegression labelCol) = ''prediction''"

fun writes :: "('m, 's) transformer \<Rightarrow> string" where
  "writes (StringIndexerModel inputCol outputCol h labels) = outputCol"
| "writes (OneHotEncoderModel inputCol outputCol n) = outputCol"
| "writes (VectorAssemblerModel inputCols outputCol h) = outputCol"
| "writes (LogisticRegressionModel m s) = ''prediction''"

fun well_formed :: "(string \<Rightarrow> shape) \<Rightarrow> stage list \<Rightarrow> bool" where
  "well_formed S [] = True"
| "well_formed S (s # ss) =
     (ok_stage S s \<and> writes_stage s \<notin> set (indexed_columns ss) \<and>
      well_formed (shape_after s S) ss)"

fun fresh :: "('m, 's) transformer list \<Rightarrow> bool" where
  "fresh [] = True"
| "fresh (t # ts) = (writes t \<notin> set (map fst (vocabulary ts)) \<and> fresh ts)"

text \<open>A fitted stage is its stage with what fitting has added.\<close>

fun fitted :: "stage \<Rightarrow> ('m, 's) transformer \<Rightarrow> bool" where
  "fitted (StringIndexer inputCol outputCol h) (StringIndexerModel inputCol' outputCol' h' labels) =
     (inputCol = inputCol' \<and> outputCol = outputCol' \<and> h = h')"
| "fitted (OneHotEncoder inputCol outputCol) (OneHotEncoderModel inputCol' outputCol' n) =
     (inputCol = inputCol' \<and> outputCol = outputCol')"
| "fitted (VectorAssembler inputCols outputCol h) (VectorAssemblerModel inputCols' outputCol' h') =
     (inputCols = inputCols' \<and> outputCol = outputCol' \<and> h = h')"
| "fitted (LogisticRegression labelCol) (LogisticRegressionModel m s) = True"
| "fitted _ _ = False"

section \<open>Example tables\<close>

definition ex_data :: DataFrame where
  "ex_data =
     [(\<lambda>_. Null)(''RaceClean'' := Str ''White'', ''Felony'' := Num 1),
      (\<lambda>_. Null)(''Felony'' := Num 1),
      (\<lambda>_. Null)(''RaceClean'' := Str ''White'', ''Felony'' := Num 0)]"

definition census_example :: "census_row frame" where
  "census_example = read_csv
     [\<lparr>SUMLEV = 50, STATE = 51, COUNTY = 1, STNAME = ''Virginia'',
       CTYNAME = ''Accomack County'', YEAR = 1, AGEGRP = 0, estimates = [33164]\<rparr>,
      \<lparr>SUMLEV = 50, STATE = 51, COUNTY = 1, STNAME = ''Virginia'',
       CTYNAME = ''Accomack County'', YEAR = 3, AGEGRP = 0, estimates = [33148]\<rparr>,
      \<lparr>SUMLEV = 50, STATE = 51, COUNTY = 1, STNAME = ''Virginia'',
       CTYNAME = ''Accomack County'', YEAR = 3, AGEGRP = 1, estimates = [1896]\<rparr>,
      \<lparr>SUMLEV = 50, STATE = 51, COUNTY = 1, STNAME = ''Virginia'',
       CTYNAME = ''Accomack County'', YEAR = 12, AGEGRP = 0, estimates = [32316]\<rparr>]"

definition ex_races :: DataFrame where
  "ex_races = map (\<lambda>s. (\<lambda>_. Null)(''RaceClean'' := s))
     [Str ''White'', Str ''Black'', Null, Str ''White'', Str ''Hispanic'', Str ''Black'',
      Str ''White'']"

text \<open>A stand-in for the library's numerical code: the optimiser succeeds with an empty
  model, and the metric of a model over a table is the number of rows it was computed
  over.\<close>

definition no_lib :: "(unit, nat) mllib" where
  "no_lib =
     \<lparr>learn = (\<lambda>ex. Inr ()), evaluate = (\<lambda>m ex. length ex), predict = (\<lambda>m c. Null)\<rparr>"

definition court_row :: "cell \<Rightarrow> cell \<Rightarrow> cell \<Rightarrow> cell \<Rightarrow> int \<Rightarrow> row" where
  "court_row sex race_clean code fips_code felony =
     (\<lambda>_. Null)(''Sex'' := sex, ''RaceClean'' := race_clean, ''CodeSection'' := code,
       ''fips'' := fips_code, ''Felony'' := Num felony)"

text \<open>A table on which every indexed column has two values, of different frequencies,
  and another with a row of seen values, a row with a null and a row with an unseen
  charge code.\<close>

definition ex_court :: DataFrame where
  "ex_court =
     [court_row (Str ''Male'') (Str ''White'') (Str ''18.2-248.1'') (Str ''3'') 1,
      court_row (Str ''Male'') (Str ''Black'') (Str ''18.2-248.1'') (Str ''3'') 0,
      court_row (Str ''Female'') (Str ''White'') (Str ''18.2-250'') (Str ''7'') 1,
      court_row (Str ''Male'') (Str ''White'') (Str ''18.2-248.1'') (Str ''3'') 0]"

definition ex_new :: DataFrame where
  "ex_new =
     [court_row (Str ''Male'') (Str ''White'') (Str ''18.2-250'') (Str ''7'') 1,
      court_row (Str ''Male'') Null (Str ''18.2-248.1'') (Str ''3'') 0,
      court_row (Str ''Female'') (Str ''White'') (Str ''18.2-95'') (Str ''3'') 1]"

definition ex_split :: "DataFrame \<Rightarrow> DataFrame \<times> DataFrame" where
  "ex_split df = (take 3 df, drop 3 df)"

definition ex_null :: DataFrame where
  "ex_null =
     [(\<lambda>_. Null)(''RaceClean'' := Str ''White'', ''Felony'' := Num 1),
      (\<lambda>_. Null)(''Felony'' := Num 1),
      (\<lambda>_. Null)(''RaceClean'' := Str ''White'', ''Felony'' := Num 0),
      (\<lambda>_. Null)(''Felony'' := Num 0),
      (\<lambda>_. Null)(''Felony'' := Num 1)]"

text \<open>The pipeline of the circuit-court notebook, fitted on \<open>ex_court\<close>.\<close>

definition ex_model :: "(unit, nat) transformer list" where
  "ex_model =
     [StringIndexerModel ''Sex'' ''GendInd'' skip [''Male'', ''Female''],
      OneHotEncoderModel ''GendInd'' ''GenderOH'' 2,
      StringIndexerModel ''RaceClean'' ''RaceInd'' skip [''White'', ''Black''],
      OneHotEncoderModel ''RaceInd'' ''RaceOH'' 2,
      StringIndexerModel ''CodeSection'' ''ChargeInd'' skip [''18.2-248.1'', ''18.2-250''],
      OneHotEncoderModel ''ChargeInd'' ''ChargeCodeOH'' 2,
      StringIndexerModel ''fips'' ''FipsInd'' skip [''3'', ''7''],
      OneHotEncoderModel ''FipsInd'' ''FipsOH'' 2,
      VectorAssemblerModel [''RaceOH'', ''ChargeCodeOH'', ''FipsOH'', ''GenderOH'']
        ''features'' skip,
      LogisticRegressionModel () 4]"

text \<open>The marijuana pipeline of the circuit-court notebook, fitted on the first three
  rows of \<open>ex_court\<close>.\<close>

definition ex_model_mj :: "(unit, nat) transformer list" where
  "ex_model_mj =
     [StringIndexerModel ''Sex'' ''GendInd'' skip [''Male'', ''Female''],
      OneHotEncoderModel ''GendInd'' ''GenderOH'' 2,
      StringIndexerModel ''RaceClean'' ''RaceInd'' skip [''White'', ''Black''],
      OneHotEncoderModel ''RaceInd'' ''RaceOH'' 2,
      VectorAssemblerModel [''RaceOH'', ''GenderOH''] ''features'' skip,
      LogisticRegressionModel () 3]"

section \<open>Properties\<close>

subsection \<open>Race normalisation\<close>

lemmas patterns = pat_non_hispanic_def pat_includes_sp_def pat_includes_def bsl_def

lemma plain_patterns:
  "list_all plain_pattern
     [pat_non_hispanic, '' Caucasian'', ''Asian Or'', pat_includes_sp, pat_includes, ''Other'']"
  by (simp add: patterns metachars_def)

lemma clean_race_RaceClean:
  "clean_race df = map (\<lambda>r. r(''RaceClean'' := RaceClean (r ''Race''))) df"
  by (simp add: clean_race_def withColumn_def RaceClean_def Let_def o_def)

text \<open>
  C3: on the three example strings the six substitutions give \<open>White\<close>, \<open>Black\<close> and
  \<open>Asian or Pacific Islander\<close>, and applied to these results they change nothing:
  twice is the same as once.
\<close>

theorem RaceClean_twice:
  "RaceClean (Str ''White Caucasian(Non-Hispanic)'') = Str ''White'' \<and>
   RaceClean (RaceClean (Str ''White Caucasian(Non-Hispanic)'')) = Str ''White'' \<and>
   RaceClean (Str ''Black(Non-Hispanic)'') = Str ''Black'' \<and>
   RaceClean (RaceClean (Str ''Black(Non-Hispanic)'')) = Str ''Black'' \<and>
   RaceClean (Str ''Asian Or Pacific Islander'') = Str ''Asian or Pacific Islander'' \<and>
   RaceClean (RaceClean (Str ''Asian Or Pacific Islander'')) =
     Str ''Asian or Pacific Islander''"
  by (simp add: RaceClean_def regexp_replace_def patterns)

text \<open>
  C4: two raw strings that differ only in a space (the same once spaces are taken out)
  are normalised to two different strings, \<open>White\<close> with a trailing space and \<open>White\<close>
  without: whitespace variants are not collapsed.
\<close>

theorem RaceClean_whitespace:
  "filter (\<lambda>c. c \<noteq> CHR '' '') ''White Caucasian (Non-Hispanic)'' =
     filter (\<lambda>c. c \<noteq> CHR '' '') ''White Caucasian(Non-Hispanic)'' \<and>
   RaceClean (Str ''White Caucasian (Non-Hispanic)'') = Str ''White '' \<and>
   RaceClean (Str ''White Caucasian(Non-Hispanic)'') = Str ''White'' \<and>
   RaceClean (Str ''White Caucasian (Non-Hispanic)'') \<noteq>
     RaceClean (Str ''White Caucasian(Non-Hispanic)'')"
  by (simp add: RaceClean_def regexp_replace_def patterns)

subsection \<open>Row filter and label\<close>

text \<open>
  C1: a row is kept by the filter exactly when its charge-type cell is the string
  \<open>Misdemeanor\<close> or the string \<open>Felony\<close> (a null cell, another string or another
  spelling is not), and the labelled table is the kept rows, each with \<open>Felony\<close> set
  to 1 when the charge type is \<open>Felony\<close> and to 0 otherwise. The functions are total:
  a row outside the two labels is left out, nothing fails.
\<close>

theorem label_derivation:
  "(r \<in> set (keep_charge_types ct circuit) \<longleftrightarrow>
      r \<in> set circuit \<and> (r ct = Str ''Misdemeanor'' \<or> r ct = Str ''Felony'')) \<and>
   data_of ct circuit =
     map (\<lambda>r. r(''Felony'' := (if r ct = Str ''Felony'' then Num 1 else Num 0)))
       (keep_charge_types ct circuit)"
  by (auto simp: data_of_def add_Felony_def keep_charge_types_def filter_df_def
      withColumn_def isin_def when_otherwise_def eq_col_def)

lemma label_scenario:
  "map (\<lambda>r. (r ''ChargeType'', r ''Felony''))
     (data_of ''ChargeType''
        [(\<lambda>_. Null)(''ChargeType'' := Str ''Felony''),
         (\<lambda>_. Null)(''ChargeType'' := Str ''Dismissed''),
         (\<lambda>_. Null)(''ChargeType'' := Str ''Misdemeanor''),
         (\<lambda>_. Null)(''ChargeType'' := Str ''felony''),
         (\<lambda>_. Null)]) =
   [(Str ''Felony'', Num 1), (Str ''Misdemeanor'', Num 0)]"
  by (simp add: data_of_def add_Felony_def keep_charge_types_def filter_df_def
      withColumn_def isin_def when_otherwise_def eq_col_def)

subsection \<open>Cross-tabulation\<close>

lemma percent_rows:
  "percent data =
     map (\<lambda>k. (\<lambda>_. Null)
            (''RaceClean'' := k,
             ''count'' := count_agg ''RaceClean'' (filter (\<lambda>r. r ''RaceClean'' = k) data),
             ''n_felonies'' := sum_agg ''Felony'' (filter (\<lambda>r. r ''RaceClean'' = k) data),
             ''percent'' := divide
                (sum_agg ''Felony'' (filter (\<lambda>r. r ''RaceClean'' = k) data))
                (count_agg ''RaceClean'' (filter (\<lambda>r. r ''RaceClean'' = k) data))))
       (remdups (map (\<lambda>r. r ''RaceClean'') data))"
  by (simp add: percent_def fel_def groupBy_def withColumn_def o_def)

lemma percent_row:
  assumes "g \<in> set (percent data)"
  shows "g ''count'' =
      count_agg ''RaceClean'' (filter (\<lambda>r. r ''RaceClean'' = g ''RaceClean'') data)"
    and "g ''n_felonies'' =
      sum_agg ''Felony'' (filter (\<lambda>r. r ''RaceClean'' = g ''RaceClean'') data)"
    and "g ''percent'' = divide (g ''n_felonies'') (g ''count'')"
    and "filter (\<lambda>r. r ''RaceClean'' = g ''RaceClean'') data \<noteq> []"
  using assms unfolding percent_rows by (auto simp: filter_empty_conv)

lemma count_agg_group:
  "count_agg ''RaceClean'' (filter (\<lambda>r. r ''RaceClean'' = k) data) =
     Num (int (length (filter (\<lambda>r. r ''RaceClean'' = k \<and> r ''RaceClean'' \<noteq> Null) data)))"
  by (simp add: count_agg_def conj_commute)

text \<open>
  C6: in every row of the cross-tabulation, \<open>count\<close> is the number of rows of the group
  whose \<open>RaceClean\<close> is not null, \<open>n_felonies\<close> is the sum of the label over the group,
  and \<open>percent\<close> is \<open>n_felonies\<close> divided by \<open>count\<close>, or null when \<open>count\<close> is 0. The
  division is a total function: a count of 0 gives null, not a failure.
\<close>

theorem percent_rate:
  assumes "g \<in> set (percent data)"
  shows "\<exists>c. g ''count'' = Num c \<and>
     c = int (length (filter
           (\<lambda>r. r ''RaceClean'' = g ''RaceClean'' \<and> r ''RaceClean'' \<noteq> Null) data)) \<and>
     g ''n_felonies'' =
       sum_agg ''Felony'' (filter (\<lambda>r. r ''RaceClean'' = g ''RaceClean'') data) \<and>
     g ''percent'' =
       (case g ''n_felonies'' of
          Num n \<Rightarrow> if c = 0 then Null else Dbl (of_int n / of_int c)
        | _ \<Rightarrow> Null)"
proof -
  let ?c = "int (length (filter
      (\<lambda>r. r ''RaceClean'' = g ''RaceClean'' \<and> r ''RaceClean'' \<noteq> Null) data))"
  have c: "g ''count'' = Num ?c"
    using percent_row(1)[OF assms] by (simp only: count_agg_group)
  have p: "g ''percent'' =
       (case g ''n_felonies'' of
          Num n \<Rightarrow> if ?c = 0 then Null else Dbl (of_int n / of_int ?c)
        | _ \<Rightarrow> Null)"
    unfolding percent_row(3)[OF assms] c by (simp add: divide_def split: cell.splits)
  from c p percent_row(2)[OF assms] show ?thesis by blast
qed

theorem percent_rate_witness:
  "last (percent ex_data) \<in> set (percent ex_data) \<and>
   last (percent ex_data) ''count'' = Num 2 \<and>
   last (percent ex_data) ''n_felonies'' = Num 1 \<and>
   last (percent ex_data) ''percent'' = Dbl (1 / 2)"
proof -
  have h: "last (percent ex_data) \<in> set (percent ex_data)"
    by (simp add: percent_rows ex_data_def)
  from percent_rate[OF h] show ?thesis
    by (simp add: percent_rows ex_data_def count_agg_def sum_agg_def divide_def)
qed

lemma numbers_Num: "\<forall>r \<in> set rows. r c = Num (f r) \<Longrightarrow> numbers (map (\<lambda>r. r c) rows) = map f rows"
  by (induction rows) auto

lemma sum_agg_Num:
  assumes "\<forall>r \<in> set rows. r c = Num (f r)" "rows \<noteq> []"
  shows "sum_agg c rows = Num (sum_list (map f rows))"
  using assms by (simp add: sum_agg_def numbers_Num)

text \<open>
  C9: the group whose key is null reports \<open>count\<close> 0 however many rows it has; when
  every row carries its label as a number in \<open>Felony\<close>, the group's \<open>n_felonies\<close> is
  the sum of these labels over the rows with a null \<open>RaceClean\<close>; and its \<open>percent\<close>
  is null. The sum can be positive: in the table \<open>ex_null\<close>, three rows have a null
  key and two of them are felonies, and the null group has \<open>count\<close> 0 and
  \<open>n_felonies\<close> 2.
\<close>

theorem null_group:
  "(g \<in> set (percent data) \<and> g ''RaceClean'' = Null \<and>
      (\<forall>r \<in> set data. r ''Felony'' = Num (label r)) \<longrightarrow>
      g ''count'' = Num 0 \<and>
      g ''n_felonies'' =
        Num (sum_list (map label (filter (\<lambda>r. r ''RaceClean'' = Null) data))) \<and>
      g ''percent'' = Null) \<and>
   (\<exists>h. h \<in> set (percent ex_null) \<and> h ''RaceClean'' = Null \<and> h ''count'' = Num 0 \<and>
      h ''n_felonies'' = Num 2 \<and> h ''percent'' = Null \<and>
      length (filter (\<lambda>r. r ''RaceClean'' = Null) ex_null) = 3)"
proof (rule conjI)
  show "g \<in> set (percent data) \<and> g ''RaceClean'' = Null \<and>
      (\<forall>r \<in> set data. r ''Felony'' = Num (label r)) \<longrightarrow>
      g ''count'' = Num 0 \<and>
      g ''n_felonies'' =
        Num (sum_list (map label (filter (\<lambda>r. r ''RaceClean'' = Null) data))) \<and>
      g ''percent'' = Null"
  proof
    assume a: "g \<in> set (percent data) \<and> g ''RaceClean'' = Null \<and>
      (\<forall>r \<in> set data. r ''Felony'' = Num (label r))"
    then have g: "g \<in> set (percent data)" and k: "g ''RaceClean'' = Null"
      and l: "\<forall>r \<in> set data. r ''Felony'' = Num (label r)" by simp_all
    let ?rows = "filter (\<lambda>r. r ''RaceClean'' = Null) data"
    have c: "g ''count'' = Num 0"
      using percent_row(1)[OF g] by (simp add: k count_agg_def)
    from percent_row(4)[OF g] have ne: "?rows \<noteq> []" by (simp add: k)
    from l have "\<forall>r \<in> set ?rows. r ''Felony'' = Num (label r)" by simp
    from sum_agg_Num[OF this ne] percent_row(2)[OF g]
    have n: "g ''n_felonies'' = Num (sum_list (map label ?rows))" by (simp add: k)
    have p: "g ''percent'' = Null"
      unfolding percent_row(3)[OF g] c by (simp add: divide_def split: cell.splits)
    from c n p show "g ''count'' = Num 0 \<and>
      g ''n_felonies'' = Num (sum_list (map label ?rows)) \<and> g ''percent'' = Null" by simp
  qed
next
  let ?h = "last (percent ex_null)"
  have "?h \<in> set (percent ex_null) \<and> ?h ''RaceClean'' = Null \<and> ?h ''count'' = Num 0 \<and>
      ?h ''n_felonies'' = Num 2 \<and> ?h ''percent'' = Null \<and>
      length (filter (\<lambda>r. r ''RaceClean'' = Null) ex_null) = 3"
    by (simp add: percent_rows ex_null_def count_agg_def sum_agg_def divide_def)
  then show "\<exists>h. h \<in> set (percent ex_null) \<and> h ''RaceClean'' = Null \<and>
      h ''count'' = Num 0 \<and> h ''n_felonies'' = Num 2 \<and> h ''percent'' = Null \<and>
      length (filter (\<lambda>r. r ''RaceClean'' = Null) ex_null) = 3"
    by blast
qed

theorem null_group_witness:
  "last (percent ex_null) \<in> set (percent ex_null) \<and>
   last (percent ex_null) ''RaceClean'' = Null \<and>
   list_all (\<lambda>r. r ''Felony'' = Num (case r ''Felony'' of Num n \<Rightarrow> n | _ \<Rightarrow> 0)) ex_null \<and>
   map (\<lambda>r. case r ''Felony'' of Num n \<Rightarrow> n | _ \<Rightarrow> 0)
     (filter (\<lambda>r. r ''RaceClean'' = Null) ex_null) = [1, 0, 1] \<and>
   last (percent ex_null) ''count'' = Num 0 \<and>
   last (percent ex_null) ''n_felonies'' = Num 2 \<and>
   last (percent ex_null) ''percent'' = Null"
proof -
  let ?label = "\<lambda>r :: row. case r ''Felony'' of Num n \<Rightarrow> n | _ \<Rightarrow> 0"
  have l: "list_all (\<lambda>r. r ''Felony'' = Num (?label r)) ex_null"
    by (simp add: ex_null_def)
  have m: "map ?label (filter (\<lambda>r. r ''RaceClean'' = Null) ex_null) = [1, 0, 1]"
    by (simp add: ex_null_def)
  have h: "last (percent ex_null) \<in> set (percent ex_null) \<and>
      last (percent ex_null) ''RaceClean'' = Null \<and>
      (\<forall>r \<in> set ex_null. r ''Felony'' = Num (?label r))"
    using l by (simp add: percent_rows ex_null_def list_all_iff)
  from null_group[of "last (percent ex_null)" ex_null ?label] h
  have "last (percent ex_null) ''count'' = Num 0 \<and>
      last (percent ex_null) ''n_felonies'' =
        Num (sum_list (map ?label (filter (\<lambda>r. r ''RaceClean'' = Null) ex_null))) \<and>
      last (percent ex_null) ''percent'' = Null" by blast
  with h l m show ?thesis by simp
qed

subsection \<open>String indexer\<close>

lemma index_of_Some: "index_of xs x = Some i \<Longrightarrow> i < length xs \<and> xs ! i = x"
  by (induction xs arbitrary: i) (auto split: if_splits)

lemma index_of_None: "index_of xs x = None \<longleftrightarrow> x \<notin> set xs"
  by (induction xs) auto

lemma index_of_mem: "x \<in> set xs \<Longrightarrow> \<exists>i. index_of xs x = Some i"
  using index_of_None[of xs x] by (cases "index_of xs x") auto

lemma index_of_nth: "distinct xs \<Longrightarrow> i < length xs \<Longrightarrow> index_of xs (xs ! i) = Some i"
proof (induction xs arbitrary: i)
  case Nil
  then show ?case by simp
next
  case (Cons a xs)
  show ?case
  proof (cases i)
    case 0
    then show ?thesis by simp
  next
    case (Suc k)
    with Cons.prems have "xs ! k \<noteq> a" "k < length xs" "distinct xs" by auto
    with Cons.IH[of k] Suc show ?thesis by auto
  qed
qed

lemma frequencyDesc_set: "set (frequencyDesc vs) = set vs"
  by (simp add: frequencyDesc_def)

lemma frequencyDesc_distinct: "distinct (frequencyDesc vs)"
  by (simp add: frequencyDesc_def)

lemma frequencyDesc_sorted:
  "sorted (map (\<lambda>v. - int (count_list vs v)) (frequencyDesc vs))"
  unfolding frequencyDesc_def by (rule sorted_sort_key)

lemma frequencyDesc_order:
  assumes i: "index_of (frequencyDesc vs) v = Some i"
    and j: "index_of (frequencyDesc vs) w = Some j"
    and c: "count_list vs w < count_list vs v"
  shows "i < j"
proof (rule ccontr)
  let ?ls = "frequencyDesc vs"
  let ?key = "\<lambda>v. - int (count_list vs v)"
  assume "\<not> i < j"
  then have ji: "j \<le> i" by simp
  from index_of_Some[OF i] have i': "i < length ?ls" "?ls ! i = v" by simp_all
  from index_of_Some[OF j] have j': "j < length ?ls" "?ls ! j = w" by simp_all
  from frequencyDesc_sorted[of vs] ji i'(1)
  have "map ?key ?ls ! j \<le> map ?key ?ls ! i"
    by (simp add: sorted_iff_nth_mono del: nth_map)
  with i' j' have "?key w \<le> ?key v" by simp
  with c show False by simp
qed

lemma StringIndexerModel_Kept:
  "transform_row lib (StringIndexerModel inputCol outputCol h labels) r = Kept r' \<Longrightarrow>
     \<exists>s i. r inputCol = Str s \<and> index_of labels s = Some i \<and> r' = r(outputCol := Num (int i))"
  by (cases h) (auto simp: invalid_def split: cell.splits option.splits)

lemma StringIndexerModel_label:
  "r inputCol = Str s \<Longrightarrow> index_of labels s = Some i \<Longrightarrow>
     transform_row lib (StringIndexerModel inputCol outputCol h labels) r =
       Kept (r(outputCol := Num (int i)))"
  by simp

lemma StringIndexerModel_invalid:
  "(\<forall>s. r inputCol = Str s \<longrightarrow> s \<notin> set labels) \<Longrightarrow>
     transform_row lib (StringIndexerModel inputCol outputCol h labels) r = invalid h"
  by (auto simp: index_of_None[symmetric] split: cell.splits option.splits)

subsection \<open>Pipelines\<close>

lemma attrs_after_env: "attrs_after t (attrs_of E) = attrs_of (env_after t E)"
proof (cases t)
  case (StringIndexerModel i out h L)
  then show ?thesis by (auto simp: attrs_of_def fun_eq_iff)
next
  case (OneHotEncoderModel i out n)
  then show ?thesis by (auto simp: attrs_of_def fun_eq_iff split: kind.splits)
next
  case (VectorAssemblerModel ins out h)
  have "(case attrs_of E c of
           Some (AttributeGroup names) \<Rightarrow> map (\<lambda>a. c @ ''_'' @ a) names
         | _ \<Rightarrow> [c]) =
        (case E c of Vector names \<Rightarrow> map (\<lambda>a. c @ ''_'' @ a) names | _ \<Rightarrow> [c])" for c
    by (simp add: attrs_of_def split: kind.splits)
  with VectorAssemblerModel show ?thesis by (auto simp: attrs_of_def fun_eq_iff)
next
  case (LogisticRegressionModel m s)
  then show ?thesis by (auto simp: attrs_of_def fun_eq_iff)
qed

lemma those_as_vector:
  "list_all (\<lambda>c. \<exists>v. as_vector (r c) = Some v) cs \<Longrightarrow> \<exists>vs. those (map (\<lambda>c. as_vector (r c)) cs) = Some vs"
  by (induction cs) auto

lemma conforms_cell:
  "conforms E r \<Longrightarrow> E c \<noteq> Any \<Longrightarrow> r c \<noteq> Null \<and> (\<exists>v. as_vector (r c) = Some v)"
  unfolding conforms_def as_vector_def
  by (erule allE[of _ c]) (auto split: kind.splits)

lemma conforms_upd_Any: "conforms E r \<Longrightarrow> conforms (E(c := Any)) (r(c := x))"
  unfolding conforms_def by (auto split: kind.splits)

lemma conforms_upd_Vector:
  "conforms E r \<Longrightarrow> conforms (E(c := Vector names)) (r(c := Vec v))"
  unfolding conforms_def by (auto split: kind.splits)

lemma conforms_upd_Index:
  "conforms E r \<Longrightarrow> k < length labels \<Longrightarrow>
     conforms (E(c := Index labels)) (r(c := Num (int k)))"
  unfolding conforms_def by (auto split: kind.splits)

lemma conforms_Index:
  "conforms E r \<Longrightarrow> E c = Index labels \<Longrightarrow> \<exists>k<length labels. r c = Num (int k)"
  unfolding conforms_def by (erule allE[of _ c]) simp

lemma OneHotEncoderModel_Kept:
  "transform_row lib (OneHotEncoderModel inputCol outputCol n) r = Kept r' \<Longrightarrow>
     \<exists>v. r' = r(outputCol := Vec v)"
  by (auto split: cell.splits if_splits)

lemma VectorAssemblerModel_Kept:
  "transform_row lib (VectorAssemblerModel inputCols outputCol h) r = Kept r' \<Longrightarrow>
     \<exists>v. r' = r(outputCol := Vec v)"
  by (cases h) (auto simp: invalid_def split: option.splits if_splits)

lemma step_not_Raised:
  assumes "conforms E r" "ok_t E t"
  shows "transform_row lib t r \<noteq> Raised"
proof (cases t)
  case (StringIndexerModel i out h L)
  with assms(2) have "h = skip" by simp
  with StringIndexerModel show ?thesis
    by (simp add: invalid_def split: cell.splits option.splits)
next
  case (OneHotEncoderModel i out n)
  with assms(2) obtain L where "E i = Index L" "n = length L"
    by (auto split: kind.splits)
  with conforms_Index[OF assms(1), of i L] obtain k where "k < n" "r i = Num (int k)" by blast
  with OneHotEncoderModel show ?thesis by simp
next
  case (VectorAssemblerModel ins out h)
  with assms(2) have a: "list_all (\<lambda>c. E c \<noteq> Any) ins" by simp
  with conforms_cell[OF assms(1)]
  have nv: "\<forall>c \<in> set ins. r c \<noteq> Null \<and> (\<exists>v. as_vector (r c) = Some v)"
    by (simp add: list_all_iff)
  then have n: "Null \<notin> set (map r ins)" by fastforce
  from nv have v: "list_all (\<lambda>c. \<exists>v. as_vector (r c) = Some v) ins"
    by (simp add: list_all_iff)
  from those_as_vector[OF v] obtain vs where "those (map (\<lambda>c. as_vector (r c)) ins) = Some vs" ..
  with n VectorAssemblerModel show ?thesis by simp
next
  case (LogisticRegressionModel m s)
  then show ?thesis by simp
qed

lemma step_conforms:
  assumes "conforms E r" "transform_row lib t r = Kept r'"
  shows "conforms (env_after t E) r'"
proof (cases t)
  case (StringIndexerModel i out h L)
  with StringIndexerModel_Kept[of lib i out h L r r'] assms(2)
  obtain s k where "index_of L s = Some k" "r' = r(out := Num (int k))" by blast
  with index_of_Some[of L s k] conforms_upd_Index[OF assms(1)] StringIndexerModel
  show ?thesis by simp
next
  case (OneHotEncoderModel i out n)
  with OneHotEncoderModel_Kept[of lib i out n r r'] assms(2)
  obtain v where "r' = r(out := Vec v)" by blast
  with conforms_upd_Vector[OF assms(1)] OneHotEncoderModel show ?thesis by simp
next
  case (VectorAssemblerModel ins out h)
  with VectorAssemblerModel_Kept[of lib ins out h r r'] assms(2)
  obtain v where "r' = r(out := Vec v)" by blast
  with conforms_upd_Vector[OF assms(1)] VectorAssemblerModel show ?thesis by simp
next
  case (LogisticRegressionModel m s)
  with assms(2) conforms_upd_Any[OF assms(1)] show ?thesis by auto
qed

lemma exception_eq: "(e :: SparkException) = SparkException"
  by (cases e) simp

lemma collect_kept: "Raised \<notin> set os \<Longrightarrow> collect os = Inr (kept os)"
  by (induction os rule: collect.induct) auto

lemma collect_Raised: "Raised \<in> set os \<Longrightarrow> collect os = Inl SparkException"
  by (induction os rule: collect.induct) (auto split: sum.splits simp: exception_eq)

lemma collect_Cons_cong: "collect os = collect os' \<Longrightarrow> collect (x # os) = collect (x # os')"
  by (cases x) simp_all

lemma collect_via:
  assumes "Raised \<notin> set (map f df)"
  shows "collect (map g (kept (map f df))) =
     collect (map (\<lambda>r. case f r of Kept r' \<Rightarrow> g r' | out \<Rightarrow> out) df)"
  using assms
proof (induction df)
  case Nil
  then show ?case by simp
next
  case (Cons r df)
  then show ?case by (cases "f r") (auto intro: collect_Cons_cong)
qed

lemma pipeline_row_Cons:
  "pipeline_row lib (t # ts) = (\<lambda>r. case transform_row lib t r of Kept r' \<Rightarrow> pipeline_row lib ts r' | out \<Rightarrow> out)"
  by (rule ext) simp

lemma collect_map_Kept: "collect (map Kept df) = Inr df"
  by (induction df) auto

lemma PipelineModel_transform_rows:
  "PipelineModel_transform lib ts df = collect (map (pipeline_row lib ts) df)"
proof (induction ts arbitrary: df)
  case Nil
  have "pipeline_row lib [] = Kept" by (rule ext) simp
  then show ?case by (simp add: collect_map_Kept)
next
  case (Cons t ts)
  show ?case
  proof (cases "Raised \<in> set (map (transform_row lib t) df)")
    case True
    then obtain r where r: "r \<in> set df" "transform_row lib t r = Raised" by auto
    then have "pipeline_row lib (t # ts) r = Raised" by simp
    with r(1) have "Raised \<in> set (map (pipeline_row lib (t # ts)) df)"
      by (metis image_eqI set_map)
    with True show ?thesis
      by (simp add: transform_def collect_Raised del: pipeline_row.simps set_map)
  next
    case False
    then have "transform lib t df = Inr (kept (map (transform_row lib t) df))"
      by (simp add: transform_def collect_kept)
    with Cons.IH collect_via[OF False, of "pipeline_row lib ts"] show ?thesis
      by (simp add: pipeline_row_Cons del: pipeline_row.simps)
  qed
qed

lemma pipeline_row_not_Raised:
  "conforms E r \<Longrightarrow> oks E ts \<Longrightarrow> pipeline_row lib ts r \<noteq> Raised"
proof (induction ts arbitrary: E r)
  case Nil
  then show ?case by simp
next
  case (Cons t ts)
  from Cons.prems have ok: "ok_t E t" and oks: "oks (env_after t E) ts" by simp_all
  show ?case
  proof (cases "transform_row lib t r")
    case Raised
    with step_not_Raised[OF Cons.prems(1) ok, of lib] show ?thesis by simp
  next
    case Skipped
    then show ?thesis by simp
  next
    case (Kept r')
    from step_conforms[OF Cons.prems(1) Kept] have "conforms (env_after t E) r'" .
    from Cons.IH[OF this oks] Kept show ?thesis by simp
  qed
qed

lemma PipelineModel_transform_kept:
  assumes "oks E ts" "\<forall>r \<in> set df. conforms E r"
  shows "PipelineModel_transform lib ts df = Inr (kept (map (pipeline_row lib ts) df))"
proof -
  from assms pipeline_row_not_Raised[of E _ ts lib]
  have "Raised \<notin> set (map (pipeline_row lib ts) df)" by fastforce
  from collect_kept[OF this] show ?thesis by (simp only: PipelineModel_transform_rows)
qed

lemma conforms_Any: "conforms (\<lambda>_. Any) r"
  by (simp add: conforms_def)

lemma transform_row_writes:
  "transform_row lib t r = Kept r' \<Longrightarrow> \<exists>x. r' = r(writes t := x)"
proof (cases t)
  case (StringIndexerModel i out h L)
  assume "transform_row lib t r = Kept r'"
  with StringIndexerModel StringIndexerModel_Kept[of lib i out h L r r'] show ?thesis by auto
next
  case (OneHotEncoderModel i out n)
  assume "transform_row lib t r = Kept r'"
  with OneHotEncoderModel OneHotEncoderModel_Kept[of lib i out n r r'] show ?thesis by auto
next
  case (VectorAssemblerModel ins out h)
  assume "transform_row lib t r = Kept r'"
  with VectorAssemblerModel VectorAssemblerModel_Kept[of lib ins out h r r'] show ?thesis by auto
next
  case (LogisticRegressionModel m s)
  assume "transform_row lib t r = Kept r'"
  with LogisticRegressionModel show ?thesis by auto
qed

lemma StringIndexerModel_skip:
  "transform_row lib (StringIndexerModel i out skip L) r = Skipped \<longleftrightarrow>
     \<not> (case r i of Str s \<Rightarrow> s \<in> set L | _ \<Rightarrow> False)"
  by (auto simp: invalid_def index_of_None[symmetric] split: cell.splits option.splits)

lemma step_Skipped:
  assumes "conforms E r" "ok_t E t"
  shows "transform_row lib t r = Skipped \<longleftrightarrow>
    (\<exists>i out L. t = StringIndexerModel i out skip L \<and>
       \<not> (case r i of Str s \<Rightarrow> s \<in> set L | _ \<Rightarrow> False))"
proof (cases t)
  case (StringIndexerModel i out h L)
  with assms(2) have "h = skip" by simp
  with StringIndexerModel StringIndexerModel_skip[of lib i out L r] show ?thesis by simp
next
  case (OneHotEncoderModel i out n)
  then show ?thesis by (auto split: cell.splits)
next
  case (VectorAssemblerModel ins out h)
  with assms(2) have a: "list_all (\<lambda>c. E c \<noteq> Any) ins" by simp
  with conforms_cell[OF assms(1)]
  have nv: "\<forall>c \<in> set ins. r c \<noteq> Null \<and> (\<exists>v. as_vector (r c) = Some v)"
    by (simp add: list_all_iff)
  then have n: "Null \<notin> set (map r ins)" by fastforce
  with VectorAssemblerModel show ?thesis by (simp split: option.splits)
next
  case (LogisticRegressionModel m s)
  then show ?thesis by simp
qed

lemma in_vocabulary_Cons:
  "in_vocabulary (t # ts) r \<longleftrightarrow>
     (\<forall>i out h L. t = StringIndexerModel i out h L \<longrightarrow>
        (case r i of Str s \<Rightarrow> s \<in> set L | _ \<Rightarrow> False)) \<and> in_vocabulary ts r"
  by (cases t) (simp_all add: in_vocabulary_def)

lemma in_vocabulary_cong:
  assumes "\<forall>c \<in> set (map fst (vocabulary ts)). r c = r' c"
  shows "in_vocabulary ts r = in_vocabulary ts r'"
proof -
  have "(case r c of Str s \<Rightarrow> s \<in> set L | _ \<Rightarrow> False) =
      (case r' c of Str s \<Rightarrow> s \<in> set L | _ \<Rightarrow> False)" if "(c, L) \<in> set (vocabulary ts)" for c L
  proof -
    from that have "c \<in> set (map fst (vocabulary ts))" by force
    with assms have "r c = r' c" by blast
    then show ?thesis by simp
  qed
  then show ?thesis
    unfolding in_vocabulary_def list_all_iff by fastforce
qed

lemma survives_iff:
  assumes "oks E ts" "conforms E r" "fresh ts"
  shows "(\<exists>r'. pipeline_row lib ts r = Kept r') \<longleftrightarrow> in_vocabulary ts r"
  using assms
proof (induction ts arbitrary: E r)
  case Nil
  then show ?case by (simp add: in_vocabulary_def)
next
  case (Cons t ts)
  from Cons.prems have ok: "ok_t E t" and oks: "oks (env_after t E) ts"
    and fr: "writes t \<notin> set (map fst (vocabulary ts))" "fresh ts" by simp_all
  show ?case
  proof (cases "transform_row lib t r")
    case Raised
    with step_not_Raised[OF Cons.prems(2) ok, of lib] show ?thesis by simp
  next
    case Skipped
    with step_Skipped[OF Cons.prems(2) ok, of lib] show ?thesis
      by (auto simp: in_vocabulary_Cons)
  next
    case (Kept r')
    from step_conforms[OF Cons.prems(2) Kept] have c: "conforms (env_after t E) r'" .
    from transform_row_writes[OF Kept] obtain x where r': "r' = r(writes t := x)" ..
    have "\<forall>c \<in> set (map fst (vocabulary ts)). r' c = r c"
    proof
      fix c assume "c \<in> set (map fst (vocabulary ts))"
      with fr(1) have "c \<noteq> writes t" by blast
      then show "r' c = r c" by (simp add: r')
    qed
    then have "in_vocabulary ts r' = in_vocabulary ts r"
      by (rule in_vocabulary_cong)
    moreover have "\<forall>i out h L. t = StringIndexerModel i out h L \<longrightarrow>
        (case r i of Str s \<Rightarrow> s \<in> set L | _ \<Rightarrow> False)"
      using step_Skipped[OF Cons.prems(2) ok, of lib] Kept ok by auto
    ultimately show ?thesis
      using Cons.IH[OF oks c fr(2)] Kept by (simp add: in_vocabulary_Cons)
  qed
qed

lemma Pipeline_fit_step:
  assumes "Pipeline_fit lib (s # ss) attrs df = Inr ms"
  shows "\<exists>t ms'. fit lib attrs s df = Inr t \<and> ms = t # ms' \<and>
     (if ss = [] then ms' = []
      else \<exists>df'. transform lib t df = Inr df' \<and>
             Pipeline_fit lib ss (attrs_after t attrs) df' = Inr ms')"
proof (cases ss)
  case Nil
  with assms show ?thesis by (auto split: sum.splits)
next
  case (Cons a list)
  from assms show ?thesis unfolding Cons by (auto split: sum.splits)
qed

lemma fit_ok:
  "ok_stage (\<lambda>c. shape_of (E c)) s \<Longrightarrow> fit lib (attrs_of E) s df = Inr t \<Longrightarrow> ok_t E t"
  by (cases s)
    (auto simp: shape_of_def attrs_of_def list_all_iff split: kind.splits if_splits sum.splits)

lemma fit_env:
  "fit lib (attrs_of E) s df = Inr t \<Longrightarrow>
     (\<lambda>c. shape_of (env_after t E c)) = shape_after s (\<lambda>c. shape_of (E c))"
  by (cases s)
    (auto simp: shape_of_def attrs_of_def fun_eq_iff split: kind.splits if_splits sum.splits)

lemma fit_fitted: "fit lib attrs s df = Inr t \<Longrightarrow> fitted s t"
  by (cases s) (auto split: option.splits ml_attr.splits if_splits sum.splits)

lemma fitted_writes: "fitted s t \<Longrightarrow> writes t = writes_stage s"
  by (cases s; cases t) auto

lemma fitted_vocabulary:
  "fitted s t \<Longrightarrow> map fst (vocabulary ts) = indexed_columns ss \<Longrightarrow>
     map fst (vocabulary (t # ts)) = indexed_columns (s # ss)"
  by (cases s; cases t) auto

lemma fit_labels:
  "fit lib attrs s df = Inr (StringIndexerModel inputCol outputCol h labels) \<Longrightarrow>
     labels = frequencyDesc (string_values inputCol df)"
  by (cases s) (auto split: option.splits ml_attr.splits if_splits sum.splits)

lemma kept_mem: "r' \<in> set (kept (map f df)) \<Longrightarrow> \<exists>r \<in> set df. f r = Kept r'"
proof (induction df)
  case Nil
  then show ?case by simp
next
  case (Cons a df)
  then show ?case by (cases "f a") auto
qed

lemma transform_ok:
  assumes "ok_t E t" "\<forall>r \<in> set df. conforms E r"
  shows "transform lib t df = Inr (kept (map (transform_row lib t) df))"
    and "\<forall>r' \<in> set (kept (map (transform_row lib t) df)). conforms (env_after t E) r'"
proof -
  from assms step_not_Raised[of E _ t lib]
  have "Raised \<notin> set (map (transform_row lib t) df)" by fastforce
  from collect_kept[OF this] show "transform lib t df = Inr (kept (map (transform_row lib t) df))"
    by (simp only: transform_def)
  show "\<forall>r' \<in> set (kept (map (transform_row lib t) df)). conforms (env_after t E) r'"
  proof
    fix r' assume "r' \<in> set (kept (map (transform_row lib t) df))"
    from kept_mem[OF this] obtain r where "r \<in> set df" "transform_row lib t r = Kept r'" by blast
    with assms(2) step_conforms[of E r lib t r'] show "conforms (env_after t E) r'" by blast
  qed
qed

lemma Pipeline_fit_ok:
  assumes "well_formed (\<lambda>c. shape_of (E c)) stages" "\<forall>r \<in> set df. conforms E r"
    "Pipeline_fit lib stages (attrs_of E) df = Inr ms"
  shows "oks E ms \<and> fresh ms \<and> map fst (vocabulary ms) = indexed_columns stages"
  using assms
proof (induction stages arbitrary: E df ms)
  case Nil
  then show ?case by simp
next
  case (Cons s ss)
  from Pipeline_fit_step[OF Cons.prems(3)] obtain t ms' where
    t: "fit lib (attrs_of E) s df = Inr t" and ms: "ms = t # ms'"
    and rest: "if ss = [] then ms' = []
      else \<exists>df'. transform lib t df = Inr df' \<and>
             Pipeline_fit lib ss (attrs_after t (attrs_of E)) df' = Inr ms'"
    by blast
  from Cons.prems(1) have os: "ok_stage (\<lambda>c. shape_of (E c)) s"
    and w: "writes_stage s \<notin> set (indexed_columns ss)"
    and wf': "well_formed (shape_after s (\<lambda>c. shape_of (E c))) ss"
    by simp_all
  from fit_ok[OF os t] have ok: "ok_t E t" .
  from wf' have wf: "well_formed (\<lambda>c. shape_of (env_after t E c)) ss"
    by (simp only: fit_env[OF t])
  note f = fit_fitted[OF t]
  show ?case
  proof (cases "ss = []")
    case True
    with rest have "ms' = []" by simp
    with ms ok True f show ?thesis by (simp add: fitted_vocabulary)
  next
    case False
    let ?df = "kept (map (transform_row lib t) df)"
    from transform_ok[OF ok Cons.prems(2), of lib]
    have tr: "transform lib t df = Inr ?df"
      and cf: "\<forall>r' \<in> set ?df. conforms (env_after t E) r'" by simp_all
    from rest False tr
    have "Pipeline_fit lib ss (attrs_of (env_after t E)) ?df = Inr ms'"
      by (simp add: attrs_after_env)
    from Cons.IH[OF wf cf this]
    have ih: "oks (env_after t E) ms'" "fresh ms'"
      "map fst (vocabulary ms') = indexed_columns ss" by simp_all
    have "oks E (t # ms')" using ok ih(1) by simp
    moreover have "fresh (t # ms')" using w ih(2,3) by (simp add: fitted_writes[OF f])
    moreover have "map fst (vocabulary (t # ms')) = indexed_columns (s # ss)"
      using f ih(3) by (rule fitted_vocabulary)
    ultimately show ?thesis by (simp only: ms)
  qed
qed

lemma Pipeline_fit_fitted:
  "Pipeline_fit lib stages attrs df = Inr ms \<Longrightarrow> list_all2 fitted stages ms"
proof (induction stages arbitrary: attrs df ms)
  case Nil
  then show ?case by simp
next
  case (Cons s ss)
  from Pipeline_fit_step[OF Cons.prems] obtain t ms' where
    t: "fit lib attrs s df = Inr t" and ms: "ms = t # ms'"
    and rest: "if ss = [] then ms' = []
      else \<exists>df'. transform lib t df = Inr df' \<and>
             Pipeline_fit lib ss (attrs_after t attrs) df' = Inr ms'"
    by blast
  have "list_all2 fitted ss ms'"
  proof (cases "ss = []")
    case True
    with rest show ?thesis by simp
  next
    case False
    with rest obtain df' where "Pipeline_fit lib ss (attrs_after t attrs) df' = Inr ms'"
      by auto
    then show ?thesis by (rule Cons.IH)
  qed
  with fit_fitted[OF t] ms show ?case by simp
qed

lemma Pipeline_fit_last:
  "Pipeline_fit lib (ss @ [LogisticRegression label]) attrs df = Inr ms \<Longrightarrow>
     \<exists>ts enc m. ms = ts @ [LogisticRegressionModel m (evaluate lib m (examples label enc))] \<and>
       PipelineModel_transform lib ts df = Inr enc \<and> learn lib (examples label enc) = Inr m"
proof (induction ss arbitrary: attrs df ms)
  case Nil
  then have "\<exists>m. ms = [] @ [LogisticRegressionModel m (evaluate lib m (examples label df))] \<and>
       PipelineModel_transform lib [] df = Inr df \<and> learn lib (examples label df) = Inr m"
    by (auto split: sum.splits)
  then show ?case by blast
next
  case (Cons s ss)
  have ne: "ss @ [LogisticRegression label] \<noteq> []" by simp
  from Pipeline_fit_step[of lib s "ss @ [LogisticRegression label]" attrs df ms] Cons.prems ne
  obtain t df' ms' where
    tr: "transform lib t df = Inr df'"
    and f: "Pipeline_fit lib (ss @ [LogisticRegression label]) (attrs_after t attrs) df' = Inr ms'"
    and ms: "ms = t # ms'"
    by auto
  from Cons.IH[OF f] obtain ts enc m where
    "ms' = ts @ [LogisticRegressionModel m (evaluate lib m (examples label enc))]"
    "PipelineModel_transform lib ts df' = Inr enc" "learn lib (examples label enc) = Inr m"
    by blast
  with tr ms have "ms = (t # ts) @ [LogisticRegressionModel m (evaluate lib m (examples label enc))] \<and>
       PipelineModel_transform lib (t # ts) df = Inr enc \<and>
       learn lib (examples label enc) = Inr m" by simp
  then show ?case by blast
qed

subsection \<open>The pipelines of the notebooks\<close>

lemmas stage_defs = pipeline_def pipeline_mj_def pipeline_district_def pipeline_mj_district_def
    gendInd_def gend_def raceInd_def race_def chargeInd_def charge_def fipsInd_def fips_def
    va_def logm_def va_mj_def gendInd_district_def va_district_def

lemmas example_defs = ex_court_def ex_new_def court_row_def no_lib_def ex_split_def

lemma ex_fit: "Pipeline_fit no_lib pipeline (\<lambda>_. None) ex_court = Inr ex_model"
  by (simp add: stage_defs example_defs ex_model_def transform_def string_values_def
      frequencyDesc_def examples_def one_hot_def as_vector_def upt_rec)

lemma notebook_pipelines_well_formed: "list_all (well_formed (\<lambda>_. AnyS)) notebook_pipelines"
  by (simp add: notebook_pipelines_def stage_defs)

lemma well_formed_fit:
  assumes "well_formed (\<lambda>_. AnyS) stages" "Pipeline_fit lib stages (\<lambda>_. None) train = Inr ms"
  shows "oks (\<lambda>_. Any) ms" "fresh ms" "map fst (vocabulary ms) = indexed_columns stages"
proof -
  have a: "attrs_of (\<lambda>_. Any) = (\<lambda>_. None)"
    by (simp add: attrs_of_def fun_eq_iff)
  from assms(1) have w: "well_formed (\<lambda>c. shape_of ((\<lambda>_. Any) c)) stages"
    by (simp add: shape_of_def)
  have c: "\<forall>r \<in> set train. conforms (\<lambda>_. Any) r"
    by (simp add: conforms_Any)
  from assms(2) have "Pipeline_fit lib stages (attrs_of (\<lambda>_. Any)) train = Inr ms"
    by (simp only: a)
  from Pipeline_fit_ok[OF w c this]
  show "oks (\<lambda>_. Any) ms" "fresh ms" "map fst (vocabulary ms) = indexed_columns stages"
    by simp_all
qed

lemma fitted_StringIndexer:
  "fitted (StringIndexer i out h) t \<longleftrightarrow> (\<exists>L. t = StringIndexerModel i out h L)"
  by (cases t) auto

lemma fitted_OneHotEncoder:
  "fitted (OneHotEncoder i out) t \<longleftrightarrow> (\<exists>n. t = OneHotEncoderModel i out n)"
  by (cases t) auto

lemma fitted_VectorAssembler:
  "fitted (VectorAssembler ins out h) t \<longleftrightarrow> t = VectorAssemblerModel ins out h"
  by (cases t) auto

lemma fitted_LogisticRegression:
  "fitted (LogisticRegression l) t \<longleftrightarrow> (\<exists>m s. t = LogisticRegressionModel m s)"
  by (cases t) auto

lemmas fitted_iff = fitted_StringIndexer fitted_OneHotEncoder fitted_VectorAssembler
  fitted_LogisticRegression

lemma pipeline_fitted:
  assumes "Pipeline_fit lib pipeline (\<lambda>_. None) data = Inr ms"
  shows "\<exists>Ls Lr Lc Lf m s. ms =
     [StringIndexerModel ''Sex'' ''GendInd'' skip Ls,
      OneHotEncoderModel ''GendInd'' ''GenderOH'' (length Ls),
      StringIndexerModel ''RaceClean'' ''RaceInd'' skip Lr,
      OneHotEncoderModel ''RaceInd'' ''RaceOH'' (length Lr),
      StringIndexerModel ''CodeSection'' ''ChargeInd'' skip Lc,
      OneHotEncoderModel ''ChargeInd'' ''ChargeCodeOH'' (length Lc),
      StringIndexerModel ''fips'' ''FipsInd'' skip Lf,
      OneHotEncoderModel ''FipsInd'' ''FipsOH'' (length Lf),
      VectorAssemblerModel [''RaceOH'', ''ChargeCodeOH'', ''FipsOH'', ''GenderOH'']
        ''features'' skip,
      LogisticRegressionModel m s]"
proof -
  have w: "well_formed (\<lambda>_. AnyS) pipeline"
    using notebook_pipelines_well_formed by (simp add: notebook_pipelines_def)
  from Pipeline_fit_fitted[OF assms] obtain Ls n1 Lr n2 Lc n3 Lf n4 m s where
    ms: "ms =
     [StringIndexerModel ''Sex'' ''GendInd'' skip Ls,
      OneHotEncoderModel ''GendInd'' ''GenderOH'' n1,
      StringIndexerModel ''RaceClean'' ''RaceInd'' skip Lr,
      OneHotEncoderModel ''RaceInd'' ''RaceOH'' n2,
      StringIndexerModel ''CodeSection'' ''ChargeInd'' skip Lc,
      OneHotEncoderModel ''ChargeInd'' ''ChargeCodeOH'' n3,
      StringIndexerModel ''fips'' ''FipsInd'' skip Lf,
      OneHotEncoderModel ''FipsInd'' ''FipsOH'' n4,
      VectorAssemblerModel [''RaceOH'', ''ChargeCodeOH'', ''FipsOH'', ''GenderOH'']
        ''features'' skip,
      LogisticRegressionModel m s]"
    unfolding stage_defs by (auto simp: list_all2_Cons1 fitted_iff)
  from well_formed_fit(1)[OF w assms] have "n1 = length Ls \<and> n2 = length Lr \<and> n3 = length Lc \<and> n4 = length Lf"
    unfolding ms by simp
  with ms show ?thesis by blast
qed

lemma indexed_pair_row:
  assumes "pipeline_row lib
     (StringIndexerModel c ci skip L # OneHotEncoderModel ci co (length L) # ts) r = Kept r'"
  shows "\<exists>s i. r c = Str s \<and> index_of L s = Some i \<and>
     pipeline_row lib ts (r(ci := Num (int i), co := Vec (one_hot (length L - 1) i))) = Kept r'"
proof (cases "transform_row lib (StringIndexerModel c ci skip L) r")
  case Raised
  with assms show ?thesis by simp
next
  case Skipped
  with assms show ?thesis by simp
next
  case (Kept r1)
  from StringIndexerModel_Kept[OF Kept] obtain s i where
    s: "r c = Str s" "index_of L s = Some i" "r1 = r(ci := Num (int i))" by blast
  from index_of_Some[OF s(2)] have "i < length L" by simp
  with assms Kept s show ?thesis by simp
qed

lemma circuit_features:
  assumes "pipeline_row lib
     [StringIndexerModel ''Sex'' ''GendInd'' skip Ls,
      OneHotEncoderModel ''GendInd'' ''GenderOH'' (length Ls),
      StringIndexerModel ''RaceClean'' ''RaceInd'' skip Lr,
      OneHotEncoderModel ''RaceInd'' ''RaceOH'' (length Lr),
      StringIndexerModel ''CodeSection'' ''ChargeInd'' skip Lc,
      OneHotEncoderModel ''ChargeInd'' ''ChargeCodeOH'' (length Lc),
      StringIndexerModel ''fips'' ''FipsInd'' skip Lf,
      OneHotEncoderModel ''FipsInd'' ''FipsOH'' (length Lf),
      VectorAssemblerModel [''RaceOH'', ''ChargeCodeOH'', ''FipsOH'', ''GenderOH'']
        ''features'' skip,
      LogisticRegressionModel m s] r = Kept r'"
  shows "\<exists>sex race code fips i_s i_r i_c i_f.
     r ''Sex'' = Str sex \<and> index_of Ls sex = Some i_s \<and>
     r ''RaceClean'' = Str race \<and> index_of Lr race = Some i_r \<and>
     r ''CodeSection'' = Str code \<and> index_of Lc code = Some i_c \<and>
     r ''fips'' = Str fips \<and> index_of Lf fips = Some i_f \<and>
     r' ''features'' = Vec (one_hot (length Lr - 1) i_r @ one_hot (length Lc - 1) i_c @
        one_hot (length Lf - 1) i_f @ one_hot (length Ls - 1) i_s)"
proof -
  from indexed_pair_row[OF assms] obtain sex i_s where
    1: "r ''Sex'' = Str sex" "index_of Ls sex = Some i_s" and
    p1: "pipeline_row lib
     [StringIndexerModel ''RaceClean'' ''RaceInd'' skip Lr,
      OneHotEncoderModel ''RaceInd'' ''RaceOH'' (length Lr),
      StringIndexerModel ''CodeSection'' ''ChargeInd'' skip Lc,
      OneHotEncoderModel ''ChargeInd'' ''ChargeCodeOH'' (length Lc),
      StringIndexerModel ''fips'' ''FipsInd'' skip Lf,
      OneHotEncoderModel ''FipsInd'' ''FipsOH'' (length Lf),
      VectorAssemblerModel [''RaceOH'', ''ChargeCodeOH'', ''FipsOH'', ''GenderOH'']
        ''features'' skip,
      LogisticRegressionModel m s]
      (r(''GendInd'' := Num (int i_s), ''GenderOH'' := Vec (one_hot (length Ls - 1) i_s))) = Kept r'"
    by blast
  from indexed_pair_row[OF p1] obtain race i_r where
    2: "r ''RaceClean'' = Str race" "index_of Lr race = Some i_r" and
    p2: "pipeline_row lib
     [StringIndexerModel ''CodeSection'' ''ChargeInd'' skip Lc,
      OneHotEncoderModel ''ChargeInd'' ''ChargeCodeOH'' (length Lc),
      StringIndexerModel ''fips'' ''FipsInd'' skip Lf,
      OneHotEncoderModel ''FipsInd'' ''FipsOH'' (length Lf),
      VectorAssemblerModel [''RaceOH'', ''ChargeCodeOH'', ''FipsOH'', ''GenderOH'']
        ''features'' skip,
      LogisticRegressionModel m s]
      (r(''GendInd'' := Num (int i_s), ''GenderOH'' := Vec (one_hot (length Ls - 1) i_s),
         ''RaceInd'' := Num (int i_r), ''RaceOH'' := Vec (one_hot (length Lr - 1) i_r))) = Kept r'"
    by auto
  from indexed_pair_row[OF p2] obtain code i_c where
    3: "r ''CodeSection'' = Str code" "index_of Lc code = Some i_c" and
    p3: "pipeline_row lib
     [StringIndexerModel ''fips'' ''FipsInd'' skip Lf,
      OneHotEncoderModel ''FipsInd'' ''FipsOH'' (length Lf),
      VectorAssemblerModel [''RaceOH'', ''ChargeCodeOH'', ''FipsOH'', ''GenderOH'']
        ''features'' skip,
      LogisticRegressionModel m s]
      (r(''GendInd'' := Num (int i_s), ''GenderOH'' := Vec (one_hot (length Ls - 1) i_s),
         ''RaceInd'' := Num (int i_r), ''RaceOH'' := Vec (one_hot (length Lr - 1) i_r),
         ''ChargeInd'' := Num (int i_c),
         ''ChargeCodeOH'' := Vec (one_hot (length Lc - 1) i_c))) = Kept r'"
    by auto
  from indexed_pair_row[OF p3] obtain fips i_f where
    4: "r ''fips'' = Str fips" "index_of Lf fips = Some i_f" and
    p4: "pipeline_row lib
     [VectorAssemblerModel [''RaceOH'', ''ChargeCodeOH'', ''FipsOH'', ''GenderOH'']
        ''features'' skip,
      LogisticRegressionModel m s]
      (r(''GendInd'' := Num (int i_s), ''GenderOH'' := Vec (one_hot (length Ls - 1) i_s),
         ''RaceInd'' := Num (int i_r), ''RaceOH'' := Vec (one_hot (length Lr - 1) i_r),
         ''ChargeInd'' := Num (int i_c),
         ''ChargeCodeOH'' := Vec (one_hot (length Lc - 1) i_c),
         ''FipsInd'' := Num (int i_f), ''FipsOH'' := Vec (one_hot (length Lf - 1) i_f))) = Kept r'"
    by auto
  from p4 have "r' ''features'' = Vec (one_hot (length Lr - 1) i_r @ one_hot (length Lc - 1) i_c @
        one_hot (length Lf - 1) i_f @ one_hot (length Ls - 1) i_s)"
    by (auto simp: as_vector_def)
  with 1 2 3 4 show ?thesis by blast
qed

lemma circuit_binary_metadata:
  "binary_metadata
     [StringIndexerModel ''Sex'' ''GendInd'' skip Ls,
      OneHotEncoderModel ''GendInd'' ''GenderOH'' (length Ls),
      StringIndexerModel ''RaceClean'' ''RaceInd'' skip Lr,
      OneHotEncoderModel ''RaceInd'' ''RaceOH'' (length Lr),
      StringIndexerModel ''CodeSection'' ''ChargeInd'' skip Lc,
      OneHotEncoderModel ''ChargeInd'' ''ChargeCodeOH'' (length Lc),
      StringIndexerModel ''fips'' ''FipsInd'' skip Lf,
      OneHotEncoderModel ''FipsInd'' ''FipsOH'' (length Lf),
      VectorAssemblerModel [''RaceOH'', ''ChargeCodeOH'', ''FipsOH'', ''GenderOH'']
        ''features'' skip,
      LogisticRegressionModel m s] =
   Some (feature_names
     (map (\<lambda>l. ''RaceOH_'' @ l) (butlast Lr) @ map (\<lambda>l. ''ChargeCodeOH_'' @ l) (butlast Lc) @
      map (\<lambda>l. ''FipsOH_'' @ l) (butlast Lf) @ map (\<lambda>l. ''GenderOH_'' @ l) (butlast Ls)))"
  by (simp add: binary_metadata_def feature_names_def)

lemma Pipeline_fit_fitting_data:
  "Pipeline_fit lib stages attrs df = Inr ms \<Longrightarrow>
   ms = ts @ StringIndexerModel c out h L # rest \<Longrightarrow>
     \<exists>enc. PipelineModel_transform lib ts df = Inr enc \<and>
       L = frequencyDesc (string_values c enc)"
proof (induction stages arbitrary: attrs df ms ts)
  case Nil
  then show ?case by simp
next
  case (Cons s ss)
  from Pipeline_fit_step[OF Cons.prems(1)] obtain t ms' where
    t: "fit lib attrs s df = Inr t" and ms: "ms = t # ms'"
    and rest: "if ss = [] then ms' = []
      else \<exists>df'. transform lib t df = Inr df' \<and>
             Pipeline_fit lib ss (attrs_after t attrs) df' = Inr ms'"
    by blast
  show ?case
  proof (cases ts)
    case Nil
    with Cons.prems(2) ms have "t = StringIndexerModel c out h L" by simp
    with t have "L = frequencyDesc (string_values c df)" by (simp add: fit_labels)
    with Nil show ?thesis by simp
  next
    case (Cons t' ts')
    with Cons.prems(2) ms have t': "t' = t" and ms': "ms' = ts' @ StringIndexerModel c out h L # rest"
      by simp_all
    from ms' have "ms' \<noteq> []" by simp
    with rest obtain df' where
      tr: "transform lib t df = Inr df'"
      and f: "Pipeline_fit lib ss (attrs_after t attrs) df' = Inr ms'"
      by (cases "ss = []") auto
    from Cons.IH[OF f ms'] obtain enc where
      "PipelineModel_transform lib ts' df' = Inr enc" "L = frequencyDesc (string_values c enc)"
      by blast
    with tr Cons t' show ?thesis by simp
  qed
qed

lemma ex_races_labels:
  "frequencyDesc (string_values ''RaceClean'' ex_races) = [''White'', ''Black'', ''Hispanic'']"
  by (simp add: ex_races_def string_values_def frequencyDesc_def)

lemma ex_model_features:
  "map (\<lambda>r. case pipeline_row no_lib ex_model r of Kept r' \<Rightarrow> r' ''features'' | _ \<Rightarrow> Null) ex_court =
     [Vec [1, 1, 1, 1], Vec [0, 1, 1, 1], Vec [1, 0, 0, 0], Vec [1, 1, 1, 1]]"
  by (simp add: example_defs ex_model_def one_hot_def as_vector_def upt_rec)

text \<open>
  C7: a fitted string indexer holds the distinct non-null strings of its input column,
  each once; the positions 0, 1, ..., one less than the number of labels, are each the
  index of exactly one label; of two labels the more frequent one in the fitting data has
  the smaller index. The indexer writes that index into every row whose input cell is one
  of the labels, and treats every other row as invalid; a row it keeps was written so.

  In the circuit-court pipeline, when fitting succeeds, each of the four indexers holds
  the labels, in that order, of its column in the fitting table as the stages before it
  leave it. The attribute metadata of \<^verbatim>\<open>features\<close> then numbers the names
  \<^verbatim>\<open>RaceOH_\<close>, \<^verbatim>\<open>ChargeCodeOH_\<close>, \<^verbatim>\<open>FipsOH_\<close> and \<^verbatim>\<open>GenderOH_\<close> followed by a label, for
  the labels of each indexer in index order without the last one, and the feature vector
  of a row that passes is the concatenation, in the same order, of the one-hot vectors
  of the row's indices: position \<open>k\<close> of the vector, and so coefficient \<open>k\<close>, belongs to
  name \<open>k\<close>.
\<close>

theorem StringIndexer_frequencyDesc:
  fixes lib :: "('m, 's) mllib" and inputCol :: string and df :: DataFrame
  defines "labels \<equiv> frequencyDesc (string_values inputCol df)"
  shows "fit lib attrs (StringIndexer inputCol outputCol h) df =
      Inr (StringIndexerModel inputCol outputCol h labels) \<and>
    distinct labels \<and> set labels = set (string_values inputCol df) \<and>
    (\<forall>v \<in> set labels. \<exists>i < length labels. index_of labels v = Some i) \<and>
    (\<forall>i < length labels. index_of labels (labels ! i) = Some i) \<and>
    (\<forall>v w i j. index_of labels v = Some i \<and> index_of labels w = Some j \<and>
       count_list (string_values inputCol df) w < count_list (string_values inputCol df) v
       \<longrightarrow> i < j) \<and>
    (\<forall>r s i. r inputCol = Str s \<and> index_of labels s = Some i \<longrightarrow>
       transform_row lib (StringIndexerModel inputCol outputCol h labels) r =
         Kept (r(outputCol := Num (int i)))) \<and>
    (\<forall>r. (\<forall>s. r inputCol = Str s \<longrightarrow> s \<notin> set labels) \<longrightarrow>
       transform_row lib (StringIndexerModel inputCol outputCol h labels) r = invalid h) \<and>
    (\<forall>r r'. transform_row lib (StringIndexerModel inputCol outputCol h labels) r = Kept r' \<longrightarrow>
       (\<exists>s i. r inputCol = Str s \<and> index_of labels s = Some i \<and>
          r' = r(outputCol := Num (int i)))) \<and>
    (Pipeline_fit lib pipeline (\<lambda>_. None) data = Inr ms \<longrightarrow>
       (\<exists>Ls Lr Lc Lf.
          vocabulary ms =
            [(''Sex'', Ls), (''RaceClean'', Lr), (''CodeSection'', Lc), (''fips'', Lf)] \<and>
          (\<forall>ts c out h' L rest. ms = ts @ StringIndexerModel c out h' L # rest \<longrightarrow>
             (\<exists>enc. PipelineModel_transform lib ts data = Inr enc \<and>
                L = frequencyDesc (string_values c enc))) \<and>
          binary_metadata ms = Some (feature_names
            (map (\<lambda>l. ''RaceOH_'' @ l) (butlast Lr) @
             map (\<lambda>l. ''ChargeCodeOH_'' @ l) (butlast Lc) @
             map (\<lambda>l. ''FipsOH_'' @ l) (butlast Lf) @
             map (\<lambda>l. ''GenderOH_'' @ l) (butlast Ls))) \<and>
          (\<forall>r r'. pipeline_row lib ms r = Kept r' \<longrightarrow>
             (\<exists>sex race code fips i_s i_r i_c i_f.
                r ''Sex'' = Str sex \<and> index_of Ls sex = Some i_s \<and>
                r ''RaceClean'' = Str race \<and> index_of Lr race = Some i_r \<and>
                r ''CodeSection'' = Str code \<and> index_of Lc code = Some i_c \<and>
                r ''fips'' = Str fips \<and> index_of Lf fips = Some i_f \<and>
                r' ''features'' = Vec (one_hot (length Lr - 1) i_r @
                  one_hot (length Lc - 1) i_c @ one_hot (length Lf - 1) i_f @
                  one_hot (length Ls - 1) i_s)))))"
proof -
  have 1: "fit lib attrs (StringIndexer inputCol outputCol h) df =
      Inr (StringIndexerModel inputCol outputCol h labels)"
    by (simp add: labels_def)
  have 2: "distinct labels" "set labels = set (string_values inputCol df)"
    by (simp_all add: labels_def frequencyDesc_distinct frequencyDesc_set)
  have 3: "\<forall>v \<in> set labels. \<exists>i < length labels. index_of labels v = Some i"
    using index_of_mem[of _ labels] index_of_Some[of labels] by blast
  have 4: "\<forall>i < length labels. index_of labels (labels ! i) = Some i"
    using index_of_nth[OF 2(1)] by blast
  have 5: "\<forall>v w i j. index_of labels v = Some i \<and> index_of labels w = Some j \<and>
       count_list (string_values inputCol df) w < count_list (string_values inputCol df) v
       \<longrightarrow> i < j"
    unfolding labels_def using frequencyDesc_order[of "string_values inputCol df"] by blast
  have 6: "\<forall>r s i. r inputCol = Str s \<and> index_of labels s = Some i \<longrightarrow>
       transform_row lib (StringIndexerModel inputCol outputCol h labels) r =
         Kept (r(outputCol := Num (int i)))"
    using StringIndexerModel_label[of _ inputCol _ labels _ lib outputCol h] by blast
  have 7: "\<forall>r. (\<forall>s. r inputCol = Str s \<longrightarrow> s \<notin> set labels) \<longrightarrow>
       transform_row lib (StringIndexerModel inputCol outputCol h labels) r = invalid h"
    using StringIndexerModel_invalid[of _ inputCol labels lib outputCol h] by blast
  have 8: "\<forall>r r'. transform_row lib (StringIndexerModel inputCol outputCol h labels) r = Kept r' \<longrightarrow>
       (\<exists>s i. r inputCol = Str s \<and> index_of labels s = Some i \<and>
          r' = r(outputCol := Num (int i)))"
    using StringIndexerModel_Kept[of lib inputCol outputCol h labels] by blast
  have 9: "\<exists>Ls Lr Lc Lf.
          vocabulary ms =
            [(''Sex'', Ls), (''RaceClean'', Lr), (''CodeSection'', Lc), (''fips'', Lf)] \<and>
          (\<forall>ts c out h' L rest. ms = ts @ StringIndexerModel c out h' L # rest \<longrightarrow>
             (\<exists>enc. PipelineModel_transform lib ts data = Inr enc \<and>
                L = frequencyDesc (string_values c enc))) \<and>
          binary_metadata ms = Some (feature_names
            (map (\<lambda>l. ''RaceOH_'' @ l) (butlast Lr) @
             map (\<lambda>l. ''ChargeCodeOH_'' @ l) (butlast Lc) @
             map (\<lambda>l. ''FipsOH_'' @ l) (butlast Lf) @
             map (\<lambda>l. ''GenderOH_'' @ l) (butlast Ls))) \<and>
          (\<forall>r r'. pipeline_row lib ms r = Kept r' \<longrightarrow>
             (\<exists>sex race code fips i_s i_r i_c i_f.
                r ''Sex'' = Str sex \<and> index_of Ls sex = Some i_s \<and>
                r ''RaceClean'' = Str race \<and> index_of Lr race = Some i_r \<and>
                r ''CodeSection'' = Str code \<and> index_of Lc code = Some i_c \<and>
                r ''fips'' = Str fips \<and> index_of Lf fips = Some i_f \<and>
                r' ''features'' = Vec (one_hot (length Lr - 1) i_r @
                  one_hot (length Lc - 1) i_c @ one_hot (length Lf - 1) i_f @
                  one_hot (length Ls - 1) i_s)))"
    if f: "Pipeline_fit lib pipeline (\<lambda>_. None) data = Inr ms"
  proof -
    from pipeline_fitted[OF f] obtain Ls Lr Lc Lf m s where ms: "ms =
     [StringIndexerModel ''Sex'' ''GendInd'' skip Ls,
      OneHotEncoderModel ''GendInd'' ''GenderOH'' (length Ls),
      StringIndexerModel ''RaceClean'' ''RaceInd'' skip Lr,
      OneHotEncoderModel ''RaceInd'' ''RaceOH'' (length Lr),
      StringIndexerModel ''CodeSection'' ''ChargeInd'' skip Lc,
      OneHotEncoderModel ''ChargeInd'' ''ChargeCodeOH'' (length Lc),
      StringIndexerModel ''fips'' ''FipsInd'' skip Lf,
      OneHotEncoderModel ''FipsInd'' ''FipsOH'' (length Lf),
      VectorAssemblerModel [''RaceOH'', ''ChargeCodeOH'', ''FipsOH'', ''GenderOH'']
        ''features'' skip,
      LogisticRegressionModel m s]" by blast
    have a: "vocabulary ms =
        [(''Sex'', Ls), (''RaceClean'', Lr), (''CodeSection'', Lc), (''fips'', Lf)]"
      by (simp add: ms)
    have b: "\<forall>ts c out h' L rest. ms = ts @ StringIndexerModel c out h' L # rest \<longrightarrow>
             (\<exists>enc. PipelineModel_transform lib ts data = Inr enc \<and>
                L = frequencyDesc (string_values c enc))"
      using Pipeline_fit_fitting_data[OF f] by blast
    note c = circuit_binary_metadata[of Ls Lr Lc Lf m s, folded ms]
    have d: "\<forall>r r'. pipeline_row lib ms r = Kept r' \<longrightarrow>
             (\<exists>sex race code fips i_s i_r i_c i_f.
                r ''Sex'' = Str sex \<and> index_of Ls sex = Some i_s \<and>
                r ''RaceClean'' = Str race \<and> index_of Lr race = Some i_r \<and>
                r ''CodeSection'' = Str code \<and> index_of Lc code = Some i_c \<and>
                r ''fips'' = Str fips \<and> index_of Lf fips = Some i_f \<and>
                r' ''features'' = Vec (one_hot (length Lr - 1) i_r @
                  one_hot (length Lc - 1) i_c @ one_hot (length Lf - 1) i_f @
                  one_hot (length Ls - 1) i_s))"
      using circuit_features[of lib Ls Lr Lc Lf m s, folded ms] by blast
    show ?thesis
      by (rule exI[of _ Ls], rule exI[of _ Lr], rule exI[of _ Lc], rule exI[of _ Lf])
        (intro conjI; fact a b c d)
  qed
  then have 10: "Pipeline_fit lib pipeline (\<lambda>_. None) data = Inr ms \<longrightarrow>
       (\<exists>Ls Lr Lc Lf.
          vocabulary ms =
            [(''Sex'', Ls), (''RaceClean'', Lr), (''CodeSection'', Lc), (''fips'', Lf)] \<and>
          (\<forall>ts c out h' L rest. ms = ts @ StringIndexerModel c out h' L # rest \<longrightarrow>
             (\<exists>enc. PipelineModel_transform lib ts data = Inr enc \<and>
                L = frequencyDesc (string_values c enc))) \<and>
          binary_metadata ms = Some (feature_names
            (map (\<lambda>l. ''RaceOH_'' @ l) (butlast Lr) @
             map (\<lambda>l. ''ChargeCodeOH_'' @ l) (butlast Lc) @
             map (\<lambda>l. ''FipsOH_'' @ l) (butlast Lf) @
             map (\<lambda>l. ''GenderOH_'' @ l) (butlast Ls))) \<and>
          (\<forall>r r'. pipeline_row lib ms r = Kept r' \<longrightarrow>
             (\<exists>sex race code fips i_s i_r i_c i_f.
                r ''Sex'' = Str sex \<and> index_of Ls sex = Some i_s \<and>
                r ''RaceClean'' = Str race \<and> index_of Lr race = Some i_r \<and>
                r ''CodeSection'' = Str code \<and> index_of Lc code = Some i_c \<and>
                r ''fips'' = Str fips \<and> index_of Lf fips = Some i_f \<and>
                r' ''features'' = Vec (one_hot (length Lr - 1) i_r @
                  one_hot (length Lc - 1) i_c @ one_hot (length Lf - 1) i_f @
                  one_hot (length Ls - 1) i_s))))"
    by (rule impI)
  show ?thesis by (intro conjI; fact 1 2 3 4 5 6 7 8 10)
qed

theorem StringIndexer_frequencyDesc_witness:
  "fit no_lib (\<lambda>_. None) (StringIndexer ''RaceClean'' ''RaceInd'' skip) ex_races =
     Inr (StringIndexerModel ''RaceClean'' ''RaceInd'' skip [''White'', ''Black'', ''Hispanic'']) \<and>
   count_list (string_values ''RaceClean'' ex_races) ''Hispanic'' <
     count_list (string_values ''RaceClean'' ex_races) ''White'' \<and>
   index_of [''White'', ''Black'', ''Hispanic''] ''White'' = Some 0 \<and>
   index_of [''White'', ''Black'', ''Hispanic''] ''Hispanic'' = Some 2 \<and>
   (0::nat) < 2 \<and>
   (ex_races ! 4) ''RaceClean'' = Str ''Hispanic'' \<and>
   transform_row no_lib
     (StringIndexerModel ''RaceClean'' ''RaceInd'' skip [''White'', ''Black'', ''Hispanic''])
     (ex_races ! 4) = Kept ((ex_races ! 4)(''RaceInd'' := Num 2)) \<and>
   Pipeline_fit no_lib pipeline (\<lambda>_. None) ex_court = Inr ex_model \<and>
   vocabulary ex_model =
     [(''Sex'', [''Male'', ''Female'']), (''RaceClean'', [''White'', ''Black'']),
      (''CodeSection'', [''18.2-248.1'', ''18.2-250'']), (''fips'', [''3'', ''7''])] \<and>
   binary_metadata ex_model =
     Some [(0, ''RaceOH_White''), (1, ''ChargeCodeOH_18.2-248.1''), (2, ''FipsOH_3''),
       (3, ''GenderOH_Male'')] \<and>
   map (\<lambda>r. case pipeline_row no_lib ex_model r of Kept r' \<Rightarrow> r' ''features'' | _ \<Rightarrow> Null)
     ex_court =
     [Vec [1, 1, 1, 1], Vec [0, 1, 1, 1], Vec [1, 0, 0, 0], Vec [1, 1, 1, 1]]"
proof -
  note t = StringIndexer_frequencyDesc[of no_lib "\<lambda>_. None" "''RaceClean''" "''RaceInd''" skip
      ex_races ex_court ex_model, unfolded ex_races_labels]
  have c: "count_list (string_values ''RaceClean'' ex_races) ''Hispanic'' <
     count_list (string_values ''RaceClean'' ex_races) ''White''"
    by (simp add: ex_races_def string_values_def)
  have i: "index_of [''White'', ''Black'', ''Hispanic''] ''White'' = Some 0"
    "index_of [''White'', ''Black'', ''Hispanic''] ''Hispanic'' = Some 2"
    by simp_all
  have r: "(ex_races ! 4) ''RaceClean'' = Str ''Hispanic''" by (simp add: ex_races_def)
  from t have 1: "fit no_lib (\<lambda>_. None) (StringIndexer ''RaceClean'' ''RaceInd'' skip) ex_races =
     Inr (StringIndexerModel ''RaceClean'' ''RaceInd'' skip [''White'', ''Black'', ''Hispanic''])"
    by (elim conjE)
  from t have "\<forall>v w i j. index_of [''White'', ''Black'', ''Hispanic''] v = Some i \<and>
       index_of [''White'', ''Black'', ''Hispanic''] w = Some j \<and>
       count_list (string_values ''RaceClean'' ex_races) w <
         count_list (string_values ''RaceClean'' ex_races) v \<longrightarrow> i < j"
    by (elim conjE)
  with c i have 2: "(0::nat) < 2" by blast
  from t have "\<forall>r s i. r ''RaceClean'' = Str s \<and>
       index_of [''White'', ''Black'', ''Hispanic''] s = Some i \<longrightarrow>
       transform_row no_lib
         (StringIndexerModel ''RaceClean'' ''RaceInd'' skip [''White'', ''Black'', ''Hispanic''])
         r = Kept (r(''RaceInd'' := Num (int i)))"
    by (elim conjE)
  with r i(2) have 3: "transform_row no_lib
     (StringIndexerModel ''RaceClean'' ''RaceInd'' skip [''White'', ''Black'', ''Hispanic''])
     (ex_races ! 4) = Kept ((ex_races ! 4)(''RaceInd'' := Num (int 2)))"
    by blast
  from t have p: "Pipeline_fit no_lib pipeline (\<lambda>_. None) ex_court = Inr ex_model \<longrightarrow>
       (\<exists>Ls Lr Lc Lf.
          vocabulary ex_model =
            [(''Sex'', Ls), (''RaceClean'', Lr), (''CodeSection'', Lc), (''fips'', Lf)] \<and>
          (\<forall>ts c out h' L rest. ex_model = ts @ StringIndexerModel c out h' L # rest \<longrightarrow>
             (\<exists>enc. PipelineModel_transform no_lib ts ex_court = Inr enc \<and>
                L = frequencyDesc (string_values c enc))) \<and>
          binary_metadata ex_model = Some (feature_names
            (map (\<lambda>l. ''RaceOH_'' @ l) (butlast Lr) @
             map (\<lambda>l. ''ChargeCodeOH_'' @ l) (butlast Lc) @
             map (\<lambda>l. ''FipsOH_'' @ l) (butlast Lf) @
             map (\<lambda>l. ''GenderOH_'' @ l) (butlast Ls))) \<and>
          (\<forall>r r'. pipeline_row no_lib ex_model r = Kept r' \<longrightarrow>
             (\<exists>sex race code fips i_s i_r i_c i_f.
                r ''Sex'' = Str sex \<and> index_of Ls sex = Some i_s \<and>
                r ''RaceClean'' = Str race \<and> index_of Lr race = Some i_r \<and>
                r ''CodeSection'' = Str code \<and> index_of Lc code = Some i_c \<and>
                r ''fips'' = Str fips \<and> index_of Lf fips = Some i_f \<and>
                r' ''features'' = Vec (one_hot (length Lr - 1) i_r @
                  one_hot (length Lc - 1) i_c @ one_hot (length Lf - 1) i_f @
                  one_hot (length Ls - 1) i_s))))"
    by (elim conjE)
  have v: "vocabulary ex_model =
     [(''Sex'', [''Male'', ''Female'']), (''RaceClean'', [''White'', ''Black'']),
      (''CodeSection'', [''18.2-248.1'', ''18.2-250'']), (''fips'', [''3'', ''7''])]"
    by (simp add: ex_model_def)
  from p ex_fit obtain Ls Lr Lc Lf where
    m: "vocabulary ex_model =
            [(''Sex'', Ls), (''RaceClean'', Lr), (''CodeSection'', Lc), (''fips'', Lf)]"
      "binary_metadata ex_model = Some (feature_names
            (map (\<lambda>l. ''RaceOH_'' @ l) (butlast Lr) @
             map (\<lambda>l. ''ChargeCodeOH_'' @ l) (butlast Lc) @
             map (\<lambda>l. ''FipsOH_'' @ l) (butlast Lf) @
             map (\<lambda>l. ''GenderOH_'' @ l) (butlast Ls)))"
    by blast
  from m(1) v have "Ls = [''Male'', ''Female'']" "Lr = [''White'', ''Black'']"
    "Lc = [''18.2-248.1'', ''18.2-250'']" "Lf = [''3'', ''7'']" by simp_all
  with m(2) have 4: "binary_metadata ex_model =
     Some [(0, ''RaceOH_White''), (1, ''ChargeCodeOH_18.2-248.1''), (2, ''FipsOH_3''),
       (3, ''GenderOH_Male'')]"
    by (simp add: feature_names_def upt_rec)
  from c i r 1 2 3 4 v ex_fit ex_model_features show ?thesis by simp
qed

lemma ex_new_in_vocabulary: "map (in_vocabulary ex_model) ex_new = [True, False, False]"
  by (simp add: in_vocabulary_def ex_model_def ex_new_def court_row_def)

lemma notebook_indexed_columns:
  "map indexed_columns notebook_pipelines =
     [[''Sex'', ''RaceClean'', ''CodeSection'', ''fips''], [''Sex'', ''RaceClean''],
      [''Gender'', ''RaceClean'', ''CodeSection''], [''Gender'', ''RaceClean'']]"
  by (simp add: notebook_pipelines_def stage_defs)

lemma length_kept: "length (kept (map f df)) = length (filter (\<lambda>r. \<exists>r'. f r = Kept r') df)"
proof (induction df)
  case Nil
  then show ?case by simp
next
  case (Cons a df)
  then show ?case by (cases "f a") auto
qed

lemma length_filter_minus: "length (filter P xs) = length xs - length (filter (\<lambda>x. \<not> P x) xs)"
  using sum_length_filter_compl[of P xs] by simp

text \<open>
  C2: for each pipeline of the notebooks, once fitted on a table, the vocabulary is that
  of the indexed columns (sex, race, charge code and jurisdiction as the pipeline has
  them). A row of any table passes the fitted stages exactly when each of these columns
  holds a string of the vocabulary; a row with a null or an unseen string is filtered
  out. Transforming never fails, and the number of rows that come out is the number of
  rows less the number of rows that are not in the vocabulary. Fitting itself can fail
  (an encoder refuses an indexed column with fewer than two labels, the optimiser can
  refuse its input); the statement is about a pipeline whose fitting succeeded.
\<close>

theorem encoding_survivors:
  assumes "stages \<in> set notebook_pipelines"
    and "Pipeline_fit lib stages (\<lambda>_. None) train = Inr ms"
  shows "map fst (vocabulary ms) = indexed_columns stages \<and>
      (\<forall>r. (\<exists>r'. pipeline_row lib ms r = Kept r') \<longleftrightarrow> in_vocabulary ms r) \<and>
      (\<forall>df. PipelineModel_transform lib ms df = Inr (kept (map (pipeline_row lib ms) df)) \<and>
         length (kept (map (pipeline_row lib ms) df)) =
           length df - length (filter (\<lambda>r. \<not> in_vocabulary ms r) df))"
proof -
  from assms(1) notebook_pipelines_well_formed have w: "well_formed (\<lambda>_. AnyS) stages"
    by (simp add: list_all_iff)
  note ms = well_formed_fit[OF w assms(2)]
  have s: "(\<exists>r'. pipeline_row lib ms r = Kept r') \<longleftrightarrow> in_vocabulary ms r" for r
    using survives_iff[OF ms(1) conforms_Any ms(2)] .
  have t: "PipelineModel_transform lib ms df = Inr (kept (map (pipeline_row lib ms) df))" for df
    using PipelineModel_transform_kept[OF ms(1), of df lib] by (simp add: conforms_Any)
  have l: "length (kept (map (pipeline_row lib ms) df)) =
           length df - length (filter (\<lambda>r. \<not> in_vocabulary ms r) df)" for df
    by (simp only: length_kept s length_filter_minus[of "in_vocabulary ms" df])
  from ms(3) s t l show ?thesis by blast
qed

theorem encoding_survivors_witness:
  "pipeline \<in> set notebook_pipelines \<and>
   Pipeline_fit no_lib pipeline (\<lambda>_. None) ex_court = Inr ex_model \<and>
   map (in_vocabulary ex_model) ex_new = [True, False, False] \<and>
   PipelineModel_transform no_lib ex_model ex_new =
     Inr (kept (map (pipeline_row no_lib ex_model) ex_new)) \<and>
   length (kept (map (pipeline_row no_lib ex_model) ex_new)) = 1"
proof -
  have p: "pipeline \<in> set notebook_pipelines" by (simp add: notebook_pipelines_def)
  have v: "length ex_new - length (filter (\<lambda>r. \<not> in_vocabulary ex_model r) ex_new) = 1"
    by (simp add: in_vocabulary_def ex_model_def ex_new_def court_row_def)
  from encoding_survivors[OF p ex_fit] p v ex_new_in_vocabulary ex_fit show ?thesis
    by auto
qed

subsection \<open>Training summary\<close>

lemma ex_fit_mj:
  "Pipeline_fit no_lib pipeline_mj (\<lambda>_. None) (fst (ex_split ex_court)) = Inr ex_model_mj"
  by (simp add: stage_defs example_defs ex_model_mj_def transform_def string_values_def
      frequencyDesc_def examples_def one_hot_def as_vector_def upt_rec)

lemma pipeline_snoc:
  "pipeline = [gendInd, gend, raceInd, race, chargeInd, charge, fipsInd, fips, va] @
     [LogisticRegression ''Felony'']"
  "pipeline_mj = [gendInd, gend, raceInd, race, va_mj] @ [LogisticRegression ''Felony'']"
  by (simp_all add: pipeline_def pipeline_mj_def logm_def)

lemma fit_summary:
  assumes "stages = ss @ [LogisticRegression label]" "well_formed (\<lambda>_. AnyS) stages"
    and "Pipeline_fit lib stages (\<lambda>_. None) df = Inr ms"
  shows "\<exists>ts enc m.
     ms = ts @ [LogisticRegressionModel m (evaluate lib m (examples label enc))] \<and>
     PipelineModel_transform lib ts df = Inr enc \<and>
     learn lib (examples label enc) = Inr m \<and>
     stages_last_summary (Pipeline_fit lib stages (\<lambda>_. None) df) =
       Inr (Some (evaluate lib m (examples label enc))) \<and>
     (\<forall>test. \<exists>pred. PipelineModel_transform lib ms test = Inr pred)"
proof -
  note ok = well_formed_fit(1)[OF assms(2,3)]
  from Pipeline_fit_last[OF assms(3)[unfolded assms(1)]] obtain ts enc m where
    te: "ms = ts @ [LogisticRegressionModel m (evaluate lib m (examples label enc))]"
      "PipelineModel_transform lib ts df = Inr enc" "learn lib (examples label enc) = Inr m"
    by blast
  have 2: "stages_last_summary (Pipeline_fit lib stages (\<lambda>_. None) df) =
       Inr (Some (evaluate lib m (examples label enc)))"
    unfolding assms(3) te(1) by (simp add: stages_last_summary_def)
  have 3: "\<forall>test. \<exists>pred. PipelineModel_transform lib ms test = Inr pred"
    using PipelineModel_transform_kept[OF ok, of _ lib] by (simp add: conforms_Any)
  from te 2 3 show ?thesis by blast
qed

text \<open>
  C5, as the code has it: when fitting succeeds, the printed metrics are those of the
  fitted model's training summary, computed over the table that was given to \<^verbatim>\<open>fit\<close>, as
  the encoding stages leave it. For the full model that table is the whole of \<^verbatim>\<open>data\<close>,
  whatever the split created before; for the marijuana model it is the training part of
  the split, and the held-out part is only transformed. When fitting fails there is no
  summary, only the failure.
\<close>

theorem trainingSummary_fitting_data:
  "(Pipeline_fit lib pipeline (\<lambda>_. None) data = Inr ms \<longrightarrow>
      (\<exists>ts enc m.
         ms = ts @ [LogisticRegressionModel m (evaluate lib m (examples ''Felony'' enc))] \<and>
         PipelineModel_transform lib ts data = Inr enc \<and>
         learn lib (examples ''Felony'' enc) = Inr m \<and>
         trainingSummary lib randomSplit data =
           Inr (Some (evaluate lib m (examples ''Felony'' enc))))) \<and>
   (Pipeline_fit lib pipeline (\<lambda>_. None) data = Inl e \<longrightarrow>
      trainingSummary lib randomSplit data = Inl e) \<and>
   (Pipeline_fit lib pipeline_mj (\<lambda>_. None) (fst (randomSplit data_mj)) = Inr ms_mj \<longrightarrow>
      (\<exists>ts enc m.
         ms_mj = ts @ [LogisticRegressionModel m (evaluate lib m (examples ''Felony'' enc))] \<and>
         PipelineModel_transform lib ts (fst (randomSplit data_mj)) = Inr enc \<and>
         learn lib (examples ''Felony'' enc) = Inr m \<and>
         trainingSummary_mj lib randomSplit data_mj =
           Inr (Some (evaluate lib m (examples ''Felony'' enc))))) \<and>
   (Pipeline_fit lib pipeline_mj (\<lambda>_. None) (fst (randomSplit data_mj)) = Inl e \<longrightarrow>
      trainingSummary_mj lib randomSplit data_mj = Inl e)"
proof (intro conjI impI)
  assume f: "Pipeline_fit lib pipeline (\<lambda>_. None) data = Inr ms"
  have w: "well_formed (\<lambda>_. AnyS) pipeline"
    using notebook_pipelines_well_formed by (simp add: notebook_pipelines_def)
  from fit_summary[OF pipeline_snoc(1) w f] obtain ts enc m where
    r: "ms = ts @ [LogisticRegressionModel m (evaluate lib m (examples ''Felony'' enc))]"
      "PipelineModel_transform lib ts data = Inr enc"
      "learn lib (examples ''Felony'' enc) = Inr m"
      "stages_last_summary (Pipeline_fit lib pipeline (\<lambda>_. None) data) =
        Inr (Some (evaluate lib m (examples ''Felony'' enc)))" by blast
  have "trainingSummary lib randomSplit data = Inr (Some (evaluate lib m (examples ''Felony'' enc)))"
    using r(4) by (simp add: trainingSummary_def case_prod_beta Let_def)
  with r(1,2,3) show "\<exists>ts enc m.
         ms = ts @ [LogisticRegressionModel m (evaluate lib m (examples ''Felony'' enc))] \<and>
         PipelineModel_transform lib ts data = Inr enc \<and>
         learn lib (examples ''Felony'' enc) = Inr m \<and>
         trainingSummary lib randomSplit data =
           Inr (Some (evaluate lib m (examples ''Felony'' enc)))" by blast
next
  assume "Pipeline_fit lib pipeline (\<lambda>_. None) data = Inl e"
  then show "trainingSummary lib randomSplit data = Inl e"
    by (simp add: trainingSummary_def stages_last_summary_def case_prod_beta Let_def)
next
  let ?train = "fst (randomSplit data_mj)"
  assume f: "Pipeline_fit lib pipeline_mj (\<lambda>_. None) ?train = Inr ms_mj"
  have w: "well_formed (\<lambda>_. AnyS) pipeline_mj"
    using notebook_pipelines_well_formed by (simp add: notebook_pipelines_def)
  from fit_summary[OF pipeline_snoc(2) w f] obtain ts enc m where
    r: "ms_mj = ts @ [LogisticRegressionModel m (evaluate lib m (examples ''Felony'' enc))]"
      "PipelineModel_transform lib ts ?train = Inr enc"
      "learn lib (examples ''Felony'' enc) = Inr m"
      "stages_last_summary (Pipeline_fit lib pipeline_mj (\<lambda>_. None) ?train) =
        Inr (Some (evaluate lib m (examples ''Felony'' enc)))"
      "\<forall>test. \<exists>pred. PipelineModel_transform lib ms_mj test = Inr pred"
    by blast
  from r(5) obtain pred where
    "PipelineModel_transform lib ms_mj (snd (randomSplit data_mj)) = Inr pred" by blast
  with f r(4) have "trainingSummary_mj lib randomSplit data_mj =
      Inr (Some (evaluate lib m (examples ''Felony'' enc)))"
    by (simp add: trainingSummary_mj_def case_prod_beta Let_def)
  with r(1,2,3) show "\<exists>ts enc m.
         ms_mj = ts @ [LogisticRegressionModel m (evaluate lib m (examples ''Felony'' enc))] \<and>
         PipelineModel_transform lib ts ?train = Inr enc \<and>
         learn lib (examples ''Felony'' enc) = Inr m \<and>
         trainingSummary_mj lib randomSplit data_mj =
           Inr (Some (evaluate lib m (examples ''Felony'' enc)))" by blast
next
  assume "Pipeline_fit lib pipeline_mj (\<lambda>_. None) (fst (randomSplit data_mj)) = Inl e"
  then show "trainingSummary_mj lib randomSplit data_mj = Inl e"
    by (simp add: trainingSummary_mj_def case_prod_beta Let_def)
qed

theorem trainingSummary_fitting_data_witness:
  "Pipeline_fit no_lib pipeline (\<lambda>_. None) ex_court = Inr ex_model \<and>
   length ex_court = 4 \<and>
   trainingSummary no_lib ex_split ex_court = Inr (Some 4) \<and>
   Pipeline_fit no_lib pipeline_mj (\<lambda>_. None) (fst (ex_split ex_court)) = Inr ex_model_mj \<and>
   length (fst (ex_split ex_court)) = 3 \<and>
   trainingSummary_mj no_lib ex_split ex_court = Inr (Some 3)"
proof -
  note t = trainingSummary_fitting_data[of no_lib ex_court ex_model ex_split _ ex_court ex_model_mj]
  from t ex_fit obtain ts enc m where
    a: "ex_model = ts @ [LogisticRegressionModel m (evaluate no_lib m (examples ''Felony'' enc))]"
      "trainingSummary no_lib ex_split ex_court =
         Inr (Some (evaluate no_lib m (examples ''Felony'' enc)))" by blast
  from a(1) have "last ex_model =
      LogisticRegressionModel m (evaluate no_lib m (examples ''Felony'' enc))"
    by (metis last_snoc)
  then have "evaluate no_lib m (examples ''Felony'' enc) = 4" by (simp add: ex_model_def)
  with a(2) have 1: "trainingSummary no_lib ex_split ex_court = Inr (Some 4)" by simp
  from t ex_fit_mj obtain ts' enc' m' where
    b: "ex_model_mj =
        ts' @ [LogisticRegressionModel m' (evaluate no_lib m' (examples ''Felony'' enc'))]"
      "trainingSummary_mj no_lib ex_split ex_court =
         Inr (Some (evaluate no_lib m' (examples ''Felony'' enc')))" by blast
  from b(1) have "last ex_model_mj =
      LogisticRegressionModel m' (evaluate no_lib m' (examples ''Felony'' enc'))"
    by (metis last_snoc)
  then have "evaluate no_lib m' (examples ''Felony'' enc') = 3" by (simp add: ex_model_mj_def)
  with b(2) have 2: "trainingSummary_mj no_lib ex_split ex_court = Inr (Some 3)" by simp
  have "length ex_court = 4" "length (fst (ex_split ex_court)) = 3"
    by (simp_all add: ex_court_def ex_split_def)
  with 1 2 ex_fit ex_fit_mj show ?thesis by simp
qed

text \<open>
  C5 as the claim states it fails. With a metric that counts the rows it is computed
  over, a table of four rows and a split that holds one row out, the notebook's
  summary is 4, the whole table, where the metrics over the held-out part would be 1.
\<close>

theorem summary_not_held_out:
  "trainingSummary no_lib ex_split ex_court = Inr (Some 4) \<and>
   spec_summary no_lib ex_split ex_court = Inr (Some 1)"
  by (simp add: trainingSummary_def spec_summary_def held_out_metrics_def
      stages_last_summary_def ex_fit)
     (simp add: example_defs ex_model_def transform_def examples_def one_hot_def
      as_vector_def upt_rec)

subsection \<open>Census cleaning\<close>

lemma recode_in_range:
  "3 \<le> y \<Longrightarrow> y \<le> 12 \<Longrightarrow> np_select (conditions y) choices 0 = y + 2007"
  unfolding conditions_def choices_def by (simp; arith)

lemma census_clean_mem:
  "(i, out) \<in> set (census_clean census) \<longleftrightarrow>
     (\<exists>r. (i, r) \<in> set census \<and> AGEGRP r = 0 \<and> 3 \<le> YEAR r \<and>
        out = drop_SUMLEV_AGEGRP (r\<lparr>YEAR := np_select (conditions (YEAR r)) choices 0\<rparr>))"
  by (auto simp: census_clean_def Let_def image_iff)

lemma census_example_clean:
  "census_clean census_example =
     [(1, \<lparr>STATE' = 51, COUNTY' = 1, STNAME' = ''Virginia'',
           CTYNAME' = ''Accomack County'', YEAR' = 2010, estimates' = [33148]\<rparr>),
      (3, \<lparr>STATE' = 51, COUNTY' = 1, STNAME' = ''Virginia'',
           CTYNAME' = ''Accomack County'', YEAR' = 2019, estimates' = [32316]\<rparr>)]"
  by (simp add: census_example_def read_csv_def upt_rec census_clean_def
      drop_SUMLEV_AGEGRP_def conditions_def choices_def)

text \<open>
  C8, as the code has it: when no \<open>YEAR\<close> code of the raw table is above 12 (the data
  dictionary's codes are 1 to 12), the record with index \<open>i\<close> is in the cleaned table
  exactly when its \<open>AGEGRP\<close> is 0 and its \<open>YEAR\<close> code is at least 3; its \<open>YEAR\<close> is
  then the code plus 2007 (3..12 give 2010..2019), the other fields are unchanged, and
  \<open>SUMLEV\<close> and \<open>AGEGRP\<close> are gone.
\<close>

theorem census_clean_records:
  assumes "\<forall>(i, r) \<in> set census. YEAR r \<le> 12"
  shows "(i, out) \<in> set (census_clean census) \<longleftrightarrow>
     (\<exists>r. (i, r) \<in> set census \<and> AGEGRP r = 0 \<and> 3 \<le> YEAR r \<and>
        out = \<lparr>STATE' = STATE r, COUNTY' = COUNTY r, STNAME' = STNAME r,
               CTYNAME' = CTYNAME r, YEAR' = YEAR r + 2007, estimates' = estimates r\<rparr>)"
proof -
  have "np_select (conditions (YEAR r)) choices 0 = YEAR r + 2007"
    if "(i, r) \<in> set census" "3 \<le> YEAR r" for r
  proof -
    from assms that(1) have "YEAR r \<le> 12" by auto
    with that(2) show ?thesis by (simp add: recode_in_range)
  qed
  then show ?thesis
    unfolding census_clean_mem by (auto simp: drop_SUMLEV_AGEGRP_def)
qed

theorem census_clean_records_witness:
  "list_all (\<lambda>(i, r). YEAR r \<le> 12) census_example \<and>
   (3, \<lparr>STATE' = 51, COUNTY' = 1, STNAME' = ''Virginia'', CTYNAME' = ''Accomack County'',
        YEAR' = 2019, estimates' = [32316]\<rparr>) \<in> set (census_clean census_example) \<and>
   (0, \<lparr>STATE' = 51, COUNTY' = 1, STNAME' = ''Virginia'', CTYNAME' = ''Accomack County'',
        YEAR' = 2008, estimates' = [33164]\<rparr>) \<notin> set (census_clean census_example)"
proof -
  let ?r = "\<lparr>SUMLEV = 50, STATE = 51, COUNTY = 1, STNAME = ''Virginia'',
       CTYNAME = ''Accomack County'', YEAR = 12, AGEGRP = 0, estimates = [32316]\<rparr>"
  have h: "\<forall>(i, r) \<in> set census_example. YEAR r \<le> 12"
    by (simp add: census_example_def read_csv_def upt_rec)
  have "(3, ?r) \<in> set census_example \<and> AGEGRP ?r = 0 \<and> 3 \<le> YEAR ?r \<and>
     \<lparr>STATE' = 51, COUNTY' = 1, STNAME' = ''Virginia'', CTYNAME' = ''Accomack County'',
      YEAR' = 2019, estimates' = [32316]\<rparr> =
     \<lparr>STATE' = STATE ?r, COUNTY' = COUNTY ?r, STNAME' = STNAME ?r,
      CTYNAME' = CTYNAME ?r, YEAR' = YEAR ?r + 2007, estimates' = estimates ?r\<rparr>"
    by (simp add: census_example_def read_csv_def upt_rec)
  then have "(3, \<lparr>STATE' = 51, COUNTY' = 1, STNAME' = ''Virginia'',
        CTYNAME' = ''Accomack County'', YEAR' = 2019, estimates' = [32316]\<rparr>)
      \<in> set (census_clean census_example)"
    unfolding census_clean_records[OF h] by (rule exI)
  moreover have "(0, \<lparr>STATE' = 51, COUNTY' = 1, STNAME' = ''Virginia'',
        CTYNAME' = ''Accomack County'', YEAR' = 2008, estimates' = [33164]\<rparr>)
      \<notin> set (census_clean census_example)"
    by (simp add: census_example_clean)
  moreover have "list_all (\<lambda>(i, r). YEAR r \<le> 12) census_example"
    using h by (simp add: list_all_iff)
  ultimately show ?thesis by simp
qed

text \<open>
  C8 as the claim states it, for every table, fails on a record whose \<open>YEAR\<close> code is
  13: the record passes the filter, and its \<open>YEAR\<close> is not 13 + 2007.
\<close>

theorem census_year_13:
  "census_clean
     [(0, \<lparr>SUMLEV = 50, STATE = 51, COUNTY = 1, STNAME = ''Virginia'',
           CTYNAME = ''Accomack County'', YEAR = 13, AGEGRP = 0, estimates = [32316]\<rparr>)] =
     [(0, \<lparr>STATE' = 51, COUNTY' = 1, STNAME' = ''Virginia'',
           CTYNAME' = ''Accomack County'', YEAR' = 0, estimates' = [32316]\<rparr>)]"
  by (simp add: census_clean_def drop_SUMLEV_AGEGRP_def conditions_def choices_def)

text \<open>
  C10, as the code has it: when no \<open>YEAR\<close> code of the raw table is above 12 (the data
  dictionary's codes are 1 to 12), every record that passes the filter has a code in
  3..12, exactly one of the ten conditions holds for it, and every \<open>YEAR\<close> of the
  cleaned table lies in 2010..2019: the default 0 does not occur.
\<close>

theorem year_default_unreachable:
  assumes "\<forall>(i, r) \<in> set census. YEAR r \<le> 12"
  shows "(\<forall>(i, r) \<in> set census. AGEGRP r = 0 \<and> 3 \<le> YEAR r \<longrightarrow>
            YEAR r \<in> {3..12} \<and> length (filter id (conditions (YEAR r))) = 1) \<and>
         (\<forall>(i, out) \<in> set (census_clean census).
            YEAR' out \<in> {2010..2019} \<and> YEAR' out \<noteq> 0)"
proof (rule conjI)
  have one: "length (filter id (conditions y)) = 1" if "3 \<le> y" "y \<le> 12" for y
  proof -
    from that have "y = 3 \<or> y = 4 \<or> y = 5 \<or> y = 6 \<or> y = 7 \<or> y = 8 \<or> y = 9 \<or>
        y = 10 \<or> y = 11 \<or> y = 12"
      by arith
    then show ?thesis by (auto simp: conditions_def)
  qed
  show "\<forall>(i, r) \<in> set census. AGEGRP r = 0 \<and> 3 \<le> YEAR r \<longrightarrow>
            YEAR r \<in> {3..12} \<and> length (filter id (conditions (YEAR r))) = 1"
    using assms one by auto
next
  show "\<forall>(i, out) \<in> set (census_clean census). YEAR' out \<in> {2010..2019} \<and> YEAR' out \<noteq> 0"
  proof (clarify)
    fix i out assume "(i, out) \<in> set (census_clean census)"
    then obtain r where r: "(i, r) \<in> set census" "3 \<le> YEAR r"
      and out: "out =
        drop_SUMLEV_AGEGRP (r\<lparr>YEAR := np_select (conditions (YEAR r)) choices 0\<rparr>)"
      unfolding census_clean_mem by blast
    from assms r(1) have "YEAR r \<le> 12" by auto
    with r(2) show "YEAR' out \<in> {2010..2019} \<and> YEAR' out \<noteq> 0"
      by (simp add: out drop_SUMLEV_AGEGRP_def recode_in_range)
  qed
qed

theorem year_default_unreachable_witness:
  "list_all (\<lambda>(i, r). YEAR r \<le> 12) census_example \<and>
   map (\<lambda>(i, out). YEAR' out) (census_clean census_example) = [2010, 2019] \<and>
   list_all (\<lambda>(i, out). YEAR' out \<in> {2010..2019} \<and> YEAR' out \<noteq> 0)
     (census_clean census_example)"
proof -
  have h: "\<forall>(i, r) \<in> set census_example. YEAR r \<le> 12"
    by (simp add: census_example_def read_csv_def upt_rec)
  from year_default_unreachable[OF h] have
    "\<forall>(i, out) \<in> set (census_clean census_example).
       YEAR' out \<in> {2010..2019} \<and> YEAR' out \<noteq> 0"
    by (rule conjunct2)
  then have "list_all (\<lambda>(i, out). YEAR' out \<in> {2010..2019} \<and> YEAR' out \<noteq> 0)
      (census_clean census_example)"
    by (simp add: list_all_iff)
  moreover have "list_all (\<lambda>(i, r). YEAR r \<le> 12) census_example"
    using h by (simp add: list_all_iff)
  moreover have "map (\<lambda>(i, out). YEAR' out) (census_clean census_example) = [2010, 2019]"
    by (simp add: census_example_clean)
  ultimately show ?thesis by simp
qed

text \<open>
  C10 as the claim states it fails: the filter has no upper bound, so a record with
  code 14 passes it, none of the ten conditions holds, and its \<open>YEAR\<close> is the default 0.
\<close>

theorem filter_keeps_year_14:
  "census_clean
     [(7, \<lparr>SUMLEV = 50, STATE = 51, COUNTY = 3, STNAME = ''Virginia'',
           CTYNAME = ''Albemarle County'', YEAR = 14, AGEGRP = 0, estimates = [109330]\<rparr>)] =
     [(7, \<lparr>STATE' = 51, COUNTY' = 3, STNAME' = ''Virginia'',
           CTYNAME' = ''Albemarle County'', YEAR' = 0, estimates' = [109330]\<rparr>)] \<and>
   filter id (conditions 14) = []"
  by (simp add: census_clean_def drop_SUMLEV_AGEGRP_def conditions_def choices_def)

end
